theory Spec2Isabelle
  imports Complex_Main "HOL-Library.AList"
begin

section \<open>Data model\<close>

text \<open>
  The JavaScript objects of the tracker are records. Amounts are JavaScript numbers and are
  modelled as real numbers, and the running totals add them exactly; the two percentages,
  where the code divides and multiplies, are computed as the code computes them, in double
  precision (section \<open>JavaScript numbers\<close>). Timestamps, block numbers and time differences
  are integers; counters are natural numbers. Fields that several
  object shapes have under the same name (\<open>amount\<close>, \<open>timestamp\<close>, \<open>total\<close>, \<open>count\<close>)
  are declared once in a parent record, so that one selector reads them everywhere.
  \<open>from\<close>, \<open>to\<close>, \<open>type\<close>, \<open>id\<close> and \<open>end\<close> are reserved words or library constants
  and carry a prefix or suffix.
\<close>

record event =
  amount :: real
  timestamp :: int
  blockNumber :: int
  extrinsicHash :: string

text \<open>The reward objects pushed by \<open>RewardCollector.fetchRecentRewards\<close>.\<close>

record rewardEvent = event +
  address :: string
  eventId :: string
  rtype :: string

text \<open>The transfer objects pushed by \<open>TransferCollector.fetchTransfersForAddress\<close>.\<close>

record transfer = event +
  from_addr :: string
  to_addr :: string
  success :: bool
  fee :: real
  fromIdentity :: "string option"
  toIdentity :: "string option"

text \<open>The values of \<open>ExchangeDetector.exchangeByAddress\<close>.\<close>

record exchangeInfo =
  ex_id :: string
  name :: string
  ex_type :: string

text \<open>
  An exchange flow is \<open>{...transfer, type, exchange, exchangeAddress}\<close>: every field of the
  transfer, copied, and three more.
\<close>

record exchangeFlow = transfer +
  ftype :: string
  exchange :: exchangeInfo
  exchangeAddress :: string

section \<open>ExchangeDetector\<close>

text \<open>
  \<open>exchangeByAddress\<close> is a JavaScript \<open>Map\<close> from address to exchange information; only
  lookups matter here, so it is a partial function. \<open>getExchangeInfo\<close> returns the entry or
  \<open>null\<close> (\<open>None\<close>); an entry is an object and therefore truthy.
\<close>

type_synonym exchangeDetector = "string \<rightharpoonup> exchangeInfo"

definition getExchangeInfo :: "exchangeDetector \<Rightarrow> string \<Rightarrow> exchangeInfo option" where
  "getExchangeInfo exchangeByAddress a = exchangeByAddress a"

definition isExchangeAddress :: "exchangeDetector \<Rightarrow> string \<Rightarrow> bool" where
  "isExchangeAddress exchangeByAddress a = (exchangeByAddress a \<noteq> None)"

definition mkFlow :: "transfer \<Rightarrow> string \<Rightarrow> exchangeInfo \<Rightarrow> string \<Rightarrow> exchangeFlow" where
  "mkFlow t ty ex ea =
     \<lparr> amount = amount t, timestamp = timestamp t, blockNumber = blockNumber t,
       extrinsicHash = extrinsicHash t,
       from_addr = from_addr t, to_addr = to_addr t, success = success t, fee = fee t,
       fromIdentity = fromIdentity t, toIdentity = toIdentity t,
       ftype = ty, exchange = ex, exchangeAddress = ea \<rparr>"

text \<open>The body of the loop of \<open>detectExchangeTransfers\<close>: the records pushed for one transfer.\<close>

definition detectOne :: "exchangeDetector \<Rightarrow> transfer \<Rightarrow> exchangeFlow list" where
  "detectOne ebA t =
     (let toExchange = getExchangeInfo ebA (to_addr t);
          fromExchange = getExchangeInfo ebA (from_addr t)
      in (case toExchange of
            Some ex \<Rightarrow> [mkFlow t ''deposit'' ex (to_addr t)]
          | None \<Rightarrow> [])
         @
         (case fromExchange of
            Some ex \<Rightarrow> [mkFlow t ''withdrawal'' ex (from_addr t)]
          | None \<Rightarrow> []))"

fun detectExchangeTransfers_loop ::
  "exchangeDetector \<Rightarrow> transfer list \<Rightarrow> exchangeFlow list \<Rightarrow> exchangeFlow list" where
  "detectExchangeTransfers_loop ebA [] exchangeTransfers = exchangeTransfers"
| "detectExchangeTransfers_loop ebA (t # ts) exchangeTransfers =
     detectExchangeTransfers_loop ebA ts (exchangeTransfers @ detectOne ebA t)"

definition detectExchangeTransfers :: "exchangeDetector \<Rightarrow> transfer list \<Rightarrow> exchangeFlow list" where
  "detectExchangeTransfers ebA transfers = detectExchangeTransfers_loop ebA transfers []"

section \<open>JavaScript numbers\<close>

text \<open>
  The result of a division or multiplication of JavaScript numbers: a finite double, one of
  the infinities, or \<open>NaN\<close>.
\<close>

datatype jsnum = Num real | PosInfinity | NegInfinity | NotANumber

text \<open>
  Rounding a real number to the nearest double, ties to the even significand (IEEE 754
  binary64, the arithmetic of JavaScript). A number in the binade \<open>[2^e, 2^(e+1))\<close> is rounded
  to a multiple of \<open>2^(e-52)\<close>; below \<open>2^(-1022)\<close> the spacing stays \<open>2^(-1074)\<close>, so that a
  number of at most half of that underflows to 0; a rounded magnitude of \<open>2^1024\<close> or more is an
  infinity.
\<close>

definition roundHalfEven :: "real \<Rightarrow> int" where
  "roundHalfEven m =
     (if m - of_int \<lfloor>m\<rfloor> < 1 / 2 then \<lfloor>m\<rfloor>
      else if m - of_int \<lfloor>m\<rfloor> > 1 / 2 then \<lfloor>m\<rfloor> + 1
      else if even \<lfloor>m\<rfloor> then \<lfloor>m\<rfloor> else \<lfloor>m\<rfloor> + 1)"

definition exponentOf :: "real \<Rightarrow> int" where
  "exponentOf x = max \<lfloor>log 2 \<bar>x\<bar>\<rfloor> (- 1022)"

definition ulpOf :: "real \<Rightarrow> real" where
  "ulpOf x = 2 powr of_int (exponentOf x - 52)"

definition roundToDouble :: "real \<Rightarrow> jsnum" where
  "roundToDouble x =
     (if x = 0 then Num 0
      else if of_int (roundHalfEven (x / ulpOf x)) * ulpOf x \<ge> (2::real) powr 1024
      then PosInfinity
      else if of_int (roundHalfEven (x / ulpOf x)) * ulpOf x \<le> - ((2::real) powr 1024)
      then NegInfinity
      else Num (of_int (roundHalfEven (x / ulpOf x)) * ulpOf x))"

text \<open>
  \<open>x / y\<close> and \<open>a * b\<close> on JavaScript numbers, for the operands the analyzer has: finite
  numbers in the division, and a finite second factor (it is 100) in the multiplication.
  \<open>a > b\<close> and \<open>a >= 0\<close> are false when \<open>a\<close> is \<open>NaN\<close>.
\<close>

definition jsDivide :: "real \<Rightarrow> real \<Rightarrow> jsnum" where
  "jsDivide x y =
     (if y = 0 then (if x = 0 then NotANumber else if x > 0 then PosInfinity else NegInfinity)
      else roundToDouble (x / y))"

definition jsTimes :: "jsnum \<Rightarrow> real \<Rightarrow> jsnum" where
  "jsTimes a b =
     (case a of
        Num x \<Rightarrow> roundToDouble (x * b)
      | PosInfinity \<Rightarrow> (if b > 0 then PosInfinity else if b < 0 then NegInfinity else NotANumber)
      | NegInfinity \<Rightarrow> (if b > 0 then NegInfinity else if b < 0 then PosInfinity else NotANumber)
      | NotANumber \<Rightarrow> NotANumber)"

definition jsGreater :: "jsnum \<Rightarrow> real \<Rightarrow> bool" where
  "jsGreater a b = (case a of Num x \<Rightarrow> x > b | PosInfinity \<Rightarrow> True | _ \<Rightarrow> False)"


section \<open>FlowAnalyzer: the analysis object\<close>

text \<open>
  The per-address accumulators kept in the three \<open>Map\<close>s of \<open>analysis.details\<close>. A \<open>Map\<close> is an
  association list in insertion order: \<open>get\<close> is \<open>map_of\<close>, and \<open>set\<close> is \<open>AList.update\<close>, which
  replaces the value of a key already present where it stands and appends a new key at the end.
\<close>

record addrTotals =
  total :: real
  count :: nat

record addrRewards = addrTotals +
  rewards :: "rewardEvent list"

record addrTransfers = addrTotals +
  transfers :: "transfer list"

record addrFlows = addrTotals +
  flows :: "exchangeFlow list"
  quickSell :: bool

text \<open>
  The keys of the hourly objects are results of \<open>Date.prototype.getHours\<close>: an hour of the day,
  or \<open>NaN\<close> for a time value outside the range of \<open>Date\<close>.
\<close>

datatype hour = Hour int | NaN

record seller =
  seller_address :: string
  seller_amount :: real
  seller_count :: nat
  seller_quickSell :: bool

record holder =
  holder_address :: string
  holder_rewards :: real
  holder_count :: nat

record largeSeller =
  ls_address :: string
  ls_amount :: real
  ls_exchange :: string

text \<open>
  A pattern's \<open>details\<close> is the seller list, \<open>{totalRewards, exchangeFlow}\<close> or
  \<open>{quickSellers, averageTimeToExchange}\<close>. Its \<open>description\<close> is a template string; the model
  keeps the values the template interpolates, not their rendering by \<open>toLocaleString\<close> and
  \<open>toFixed\<close>: the number of sellers, their summed amount and the hour key; the sell pressure;
  the quick-seller counter.
\<close>

datatype patternDetails =
    SellerDetails "largeSeller list"
  | PressureDetails real real
  | RapidDetails nat real

datatype description =
    LargeSellersMoved nat real hour
  | SellPressureAt jsnum
  | AddressesMoved nat

record pattern =
  ptype :: string
  severity :: string
  description :: description
  pdetails :: patternDetails

record cumEntry =
  c_hour :: int
  c_rewards :: real
  c_exchange :: real
  c_pressure :: jsnum

record analysisPeriod =
  period_start :: int
  period_end :: int

record analysisSummary =
  totalRewards :: real
  totalTransfers :: real
  exchangeFlow :: real
  sellPressurePercent :: jsnum
  quickSellers :: nat
  holders :: nat
  averageTimeToExchange :: real

record analysisDetails =
  rewardsByAddress :: "(string \<times> addrRewards) list"
  transfersByAddress :: "(string \<times> addrTransfers) list"
  exchangeFlowsByAddress :: "(string \<times> addrFlows) list"
  sellPressureByHour :: "(hour \<times> real) list"
  topSellers :: "seller list"
  topHolders :: "holder list"
  suspiciousPatterns :: "pattern list"

record analysisTrends =
  hourlyRewards :: "hour \<rightharpoonup> real"
  hourlyExchangeFlows :: "hour \<rightharpoonup> real"
  cumulativeSellPressure :: "cumEntry list"

record analysis =
  analysis_timestamp :: int
  period :: analysisPeriod
  summary :: analysisSummary
  details :: analysisDetails
  trends :: analysisTrends

text \<open>
  The two fields the constructor sets from the process environment
  (\<open>RAPID_SELL_TIME_HOURS\<close> times 3600, and \<open>LARGE_FLOW_THRESHOLD_DOT\<close>). No method assigns to
  them, so the methods take the object and do not return it.
\<close>

record flowAnalyzer =
  rapidSellThreshold :: int
  largeFlowThreshold :: real

definition defaultFlowAnalyzer :: flowAnalyzer where
  "defaultFlowAnalyzer = \<lparr> rapidSellThreshold = 1 * 3600, largeFlowThreshold = 10000 \<rparr>"

section \<open>FlowAnalyzer: the passes\<close>

text \<open>
  \<open>new Date(t * 1000).getHours()\<close> for a timestamp \<open>t\<close> in seconds. A time value beyond
  8.64e15 milliseconds is an invalid date, whose hour is \<open>NaN\<close>. Otherwise the result is the hour
  of the day of the local time, which is the time value plus the offset of the process's
  time zone at that instant. \<open>localTZA\<close> is that offset in seconds, as a function of the instant
  (it is 0 everywhere when the process runs in UTC).
\<close>

definition getHours :: "(int \<Rightarrow> int) \<Rightarrow> int \<Rightarrow> hour" where
  "getHours localTZA t =
     (if \<bar>t * 1000\<bar> \<le> 8640000000000000
      then Hour (((t + localTZA t) div 3600) mod 24)
      else NaN)"

text \<open>\<open>obj[hour] || 0\<close> on an object whose values are numbers.\<close>

definition orZero :: "real option \<Rightarrow> real" where
  "orZero v = (case v of Some x \<Rightarrow> x | None \<Rightarrow> 0)"

text \<open>The analysis object as \<open>analyzeFlows\<close> creates it; \<open>now\<close> is \<open>Math.floor(Date.now() / 1000)\<close>.\<close>

definition initialAnalysis :: "int \<Rightarrow> analysis" where
  "initialAnalysis now =
     \<lparr> analysis_timestamp = now,
       period = \<lparr> period_start = now - 86400, period_end = now \<rparr>,
       summary = \<lparr> totalRewards = 0, totalTransfers = 0, exchangeFlow = 0,
                   sellPressurePercent = Num 0, quickSellers = 0, holders = 0,
                   averageTimeToExchange = 0 \<rparr>,
       details = \<lparr> rewardsByAddress = [], transfersByAddress = [],
                   exchangeFlowsByAddress = [], sellPressureByHour = [],
                   topSellers = [], topHolders = [], suspiciousPatterns = [] \<rparr>,
       trends = \<lparr> hourlyRewards = Map.empty, hourlyExchangeFlows = Map.empty,
                  cumulativeSellPressure = [] \<rparr> \<rparr>"

text \<open>The body of the loop of \<open>analyzeRewards\<close>.\<close>

definition analyzeRewards_step :: "(int \<Rightarrow> int) \<Rightarrow> rewardEvent \<Rightarrow> analysis \<Rightarrow> analysis" where
  "analyzeRewards_step localTZA reward a =
     (let addrRewards0 =
            (case map_of (rewardsByAddress (details a)) (address reward) of
               Some x \<Rightarrow> x
             | None \<Rightarrow> \<lparr> total = 0, count = 0, rewards = [] \<rparr>);
          addrRewards1 = addrRewards0
            \<lparr> total := total addrRewards0 + amount reward,
              count := Suc (count addrRewards0),
              rewards := rewards addrRewards0 @ [reward] \<rparr>;
          hour = getHours localTZA (timestamp reward)
      in a \<lparr> summary := (summary a)
                \<lparr> totalRewards := totalRewards (summary a) + amount reward \<rparr>,
             details := (details a)
                \<lparr> rewardsByAddress :=
                    AList.update (address reward) addrRewards1 (rewardsByAddress (details a)) \<rparr>,
             trends := (trends a)
                \<lparr> hourlyRewards :=
                    (hourlyRewards (trends a))
                      (hour \<mapsto> orZero (hourlyRewards (trends a) hour) + amount reward) \<rparr> \<rparr>)"

fun analyzeRewards :: "(int \<Rightarrow> int) \<Rightarrow> rewardEvent list \<Rightarrow> analysis \<Rightarrow> analysis" where
  "analyzeRewards localTZA [] a = a"
| "analyzeRewards localTZA (reward # rest) a =
     analyzeRewards localTZA rest (analyzeRewards_step localTZA reward a)"

text \<open>The body of the loop of \<open>analyzeTransfers\<close>.\<close>

definition analyzeTransfers_step :: "transfer \<Rightarrow> analysis \<Rightarrow> analysis" where
  "analyzeTransfers_step t a =
     (let addrTransfers0 =
            (case map_of (transfersByAddress (details a)) (from_addr t) of
               Some x \<Rightarrow> x
             | None \<Rightarrow> \<lparr> total = 0, count = 0, transfers = [] \<rparr>);
          addrTransfers1 = addrTransfers0
            \<lparr> total := total addrTransfers0 + amount t,
              count := Suc (count addrTransfers0),
              transfers := transfers addrTransfers0 @ [t] \<rparr>
      in a \<lparr> summary := (summary a)
                \<lparr> totalTransfers := totalTransfers (summary a) + amount t \<rparr>,
             details := (details a)
                \<lparr> transfersByAddress :=
                    AList.update (from_addr t) addrTransfers1 (transfersByAddress (details a)) \<rparr> \<rparr>)"

fun analyzeTransfers :: "transfer list \<Rightarrow> analysis \<Rightarrow> analysis" where
  "analyzeTransfers [] a = a"
| "analyzeTransfers (t # rest) a = analyzeTransfers rest (analyzeTransfers_step t a)"

text \<open>
  The body of the loop of \<open>analyzeExchangeFlows\<close>. The state is the analysis object and the
  local array \<open>timeToExchange\<close>. Only a flow of type \<open>deposit\<close> does anything.
\<close>

definition analyzeExchangeFlows_step ::
  "flowAnalyzer \<Rightarrow> (int \<Rightarrow> int) \<Rightarrow> exchangeFlow \<Rightarrow> analysis \<times> int list \<Rightarrow> analysis \<times> int list" where
  "analyzeExchangeFlows_step this localTZA flow st =
     (case st of (a, timeToExchange) \<Rightarrow>
        if ftype flow = ''deposit'' then
          let a1 = a \<lparr> summary := (summary a)
                         \<lparr> exchangeFlow := exchangeFlow (summary a) + amount flow \<rparr> \<rparr>;
              addrFlows0 =
                (case map_of (exchangeFlowsByAddress (details a1)) (from_addr flow) of
                   Some x \<Rightarrow> x
                 | None \<Rightarrow> \<lparr> total = 0, count = 0, flows = [], quickSell = False \<rparr>);
              addrFlows1 = addrFlows0
                \<lparr> total := total addrFlows0 + amount flow,
                  count := Suc (count addrFlows0),
                  flows := flows addrFlows0 @ [flow] \<rparr>;
              rewardInfo = map_of (rewardsByAddress (details a1)) (from_addr flow);
              (addrFlows2, a2, timeToExchange') =
                (case rewardInfo of
                   Some ri \<Rightarrow>
                     if length (rewards ri) > 0 then
                       let lastReward = last (rewards ri);
                           timeDiff = timestamp flow - timestamp lastReward;
                           (af, aq) =
                             (if timeDiff < rapidSellThreshold this
                              then (addrFlows1 \<lparr> quickSell := True \<rparr>,
                                    a1 \<lparr> summary := (summary a1)
                                          \<lparr> quickSellers := Suc (quickSellers (summary a1)) \<rparr> \<rparr>)
                              else (addrFlows1, a1))
                       in (af, aq, timeToExchange @ [timeDiff])
                     else (addrFlows1, a1, timeToExchange)
                 | None \<Rightarrow> (addrFlows1, a1, timeToExchange));
              a3 = a2 \<lparr> details := (details a2)
                         \<lparr> exchangeFlowsByAddress :=
                             AList.update (from_addr flow) addrFlows2
                               (exchangeFlowsByAddress (details a2)) \<rparr> \<rparr>;
              hour = getHours localTZA (timestamp flow);
              a4 = a3 \<lparr> trends := (trends a3)
                         \<lparr> hourlyExchangeFlows :=
                             (hourlyExchangeFlows (trends a3))
                               (hour \<mapsto> orZero (hourlyExchangeFlows (trends a3) hour)
                                            + amount flow) \<rparr> \<rparr>
          in (a4, timeToExchange')
        else (a, timeToExchange))"

fun analyzeExchangeFlows_loop ::
  "flowAnalyzer \<Rightarrow> (int \<Rightarrow> int) \<Rightarrow> exchangeFlow list \<Rightarrow> analysis \<times> int list \<Rightarrow> analysis \<times> int list" where
  "analyzeExchangeFlows_loop this localTZA [] st = st"
| "analyzeExchangeFlows_loop this localTZA (flow # rest) st =
     analyzeExchangeFlows_loop this localTZA rest (analyzeExchangeFlows_step this localTZA flow st)"

definition analyzeExchangeFlows ::
  "flowAnalyzer \<Rightarrow> (int \<Rightarrow> int) \<Rightarrow> exchangeFlow list \<Rightarrow> analysis \<Rightarrow> analysis" where
  "analyzeExchangeFlows this localTZA exchangeFlows a =
     (case analyzeExchangeFlows_loop this localTZA exchangeFlows (a, []) of
        (a', timeToExchange) \<Rightarrow>
          if length timeToExchange > 0 then
            let avgTime = real_of_int (sum_list timeToExchange) / real (length timeToExchange)
            in a' \<lparr> summary := (summary a') \<lparr> averageTimeToExchange := avgTime / 3600 \<rparr> \<rparr>
          else a')"

text \<open>
  \<open>calculateSellPressure\<close>. The percentage is written only when \<open>totalRewards > 0\<close>.
  \<open>new Set(keys)\<close> drops repeated keys (a \<open>Map\<close> has none). The loop over the reward
  addresses counts those that the set of exchange addresses does not have. \<open>sort\<close> is stable,
  and with the comparator \<open>b.amount - a.amount\<close> it orders by descending amount, as \<open>sort_key\<close>
  does with the negated amount; \<open>slice(0, 10)\<close> is \<open>take 10\<close>.
\<close>

fun countHolders :: "string list \<Rightarrow> string list \<Rightarrow> nat \<Rightarrow> nat" where
  "countHolders [] exchangeAddresses h = h"
| "countHolders (addr # rest) exchangeAddresses h =
     countHolders rest exchangeAddresses (if addr \<notin> set exchangeAddresses then Suc h else h)"

definition topSellersOf :: "(string \<times> addrFlows) list \<Rightarrow> seller list" where
  "topSellersOf entries =
     take 10 (sort_key (\<lambda>s. - seller_amount s)
       (map (\<lambda>(addr, data).
               \<lparr> seller_address = addr, seller_amount = total data,
                 seller_count = count data, seller_quickSell = quickSell data \<rparr>)
            entries))"

definition topHoldersOf :: "string list \<Rightarrow> (string \<times> addrRewards) list \<Rightarrow> holder list" where
  "topHoldersOf exchangeAddresses entries =
     take 10 (sort_key (\<lambda>h. - holder_rewards h)
       (map (\<lambda>(addr, data).
               \<lparr> holder_address = addr, holder_rewards = total data,
                 holder_count = count data \<rparr>)
            (filter (\<lambda>(addr, data). addr \<notin> set exchangeAddresses) entries)))"

definition calculateSellPressure :: "analysis \<Rightarrow> analysis" where
  "calculateSellPressure a =
     (let percent = (if totalRewards (summary a) > 0
                     then jsTimes (jsDivide (exchangeFlow (summary a)) (totalRewards (summary a))) 100
                     else sellPressurePercent (summary a));
          rewardAddresses = remdups (map fst (rewardsByAddress (details a)));
          exchangeAddresses = remdups (map fst (exchangeFlowsByAddress (details a)));
          h = countHolders rewardAddresses exchangeAddresses (holders (summary a))
      in a \<lparr> summary := (summary a) \<lparr> sellPressurePercent := percent, holders := h \<rparr>,
             details := (details a)
               \<lparr> topSellers := topSellersOf (exchangeFlowsByAddress (details a)),
                 topHolders := topHoldersOf exchangeAddresses (rewardsByAddress (details a)) \<rparr> \<rparr>)"

text \<open>
  \<open>identifyPatterns\<close>, pattern 1. \<open>largeSellersByHour\<close> is an object keyed by hour; the inner
  loop body pushes one entry for every flow above the threshold.
\<close>

definition largeSellers_flow ::
  "flowAnalyzer \<Rightarrow> (int \<Rightarrow> int) \<Rightarrow> string \<Rightarrow> exchangeFlow
   \<Rightarrow> (hour \<rightharpoonup> largeSeller list) \<Rightarrow> (hour \<rightharpoonup> largeSeller list)" where
  "largeSellers_flow this localTZA addr flow m =
     (if amount flow > largeFlowThreshold this then
        let hour = getHours localTZA (timestamp flow);
            sellers = (case m hour of Some s \<Rightarrow> s | None \<Rightarrow> [])
        in m (hour \<mapsto> sellers @ [\<lparr> ls_address = addr, ls_amount = amount flow,
                                    ls_exchange = name (exchange flow) \<rparr>])
      else m)"

fun largeSellers_flows ::
  "flowAnalyzer \<Rightarrow> (int \<Rightarrow> int) \<Rightarrow> string \<Rightarrow> exchangeFlow list
   \<Rightarrow> (hour \<rightharpoonup> largeSeller list) \<Rightarrow> (hour \<rightharpoonup> largeSeller list)" where
  "largeSellers_flows this localTZA addr [] m = m"
| "largeSellers_flows this localTZA addr (flow # rest) m =
     largeSellers_flows this localTZA addr rest (largeSellers_flow this localTZA addr flow m)"

fun largeSellersByHour ::
  "flowAnalyzer \<Rightarrow> (int \<Rightarrow> int) \<Rightarrow> (string \<times> addrFlows) list
   \<Rightarrow> (hour \<rightharpoonup> largeSeller list) \<Rightarrow> (hour \<rightharpoonup> largeSeller list)" where
  "largeSellersByHour this localTZA [] m = m"
| "largeSellersByHour this localTZA ((addr, fl) # rest) m =
     largeSellersByHour this localTZA rest (largeSellers_flows this localTZA addr (flows fl) m)"

text \<open>
  \<open>Object.entries\<close> of an hourly object lists the integer keys in ascending order and then
  the key \<open>NaN\<close>.
\<close>

definition hourKeys :: "hour list" where
  "hourKeys = map Hour [0, 1, 2, 3, 4, 5, 6, 7, 8, 9, 10, 11, 12, 13, 14, 15, 16, 17, 18, 19,
                        20, 21, 22, 23] @ [NaN]"

definition objectEntries :: "(hour \<rightharpoonup> 'v) \<Rightarrow> (hour \<times> 'v) list" where
  "objectEntries m = List.map_filter (\<lambda>k. map_option (Pair k) (m k)) hourKeys"

definition coordinatedPattern :: "hour \<times> largeSeller list \<Rightarrow> pattern list" where
  "coordinatedPattern e =
     (case e of (hour, sellers) \<Rightarrow>
        if length sellers \<ge> 3 then
          [\<lparr> ptype = ''coordinated_selling'', severity = ''high'',
             description = LargeSellersMoved (length sellers)
                             (sum_list (map ls_amount sellers)) hour,
             pdetails = SellerDetails sellers \<rparr>]
        else [])"

text \<open>Patterns 2 and 3: what each \<open>if\<close> pushes.\<close>

definition pressurePattern :: "analysis \<Rightarrow> pattern list" where
  "pressurePattern a =
     (if jsGreater (sellPressurePercent (summary a)) 50 then
        [\<lparr> ptype = ''high_sell_pressure'', severity = ''medium'',
           description = SellPressureAt (sellPressurePercent (summary a)),
           pdetails = PressureDetails (totalRewards (summary a)) (exchangeFlow (summary a)) \<rparr>]
      else [])"

definition rapidPattern :: "analysis \<Rightarrow> pattern list" where
  "rapidPattern a =
     (if quickSellers (summary a) > 10 then
        [\<lparr> ptype = ''rapid_selling'', severity = ''medium'',
           description = AddressesMoved (quickSellers (summary a)),
           pdetails = RapidDetails (quickSellers (summary a))
                                   (averageTimeToExchange (summary a)) \<rparr>]
      else [])"

definition coordinatedPatterns :: "flowAnalyzer \<Rightarrow> (int \<Rightarrow> int) \<Rightarrow> analysis \<Rightarrow> pattern list" where
  "coordinatedPatterns this localTZA a =
     concat (map coordinatedPattern
       (objectEntries
          (largeSellersByHour this localTZA (exchangeFlowsByAddress (details a)) Map.empty)))"

definition identifyPatterns :: "flowAnalyzer \<Rightarrow> (int \<Rightarrow> int) \<Rightarrow> analysis \<Rightarrow> 'c \<Rightarrow> analysis" where
  "identifyPatterns this localTZA a topReceivers =
     (let patterns = coordinatedPatterns this localTZA a @ pressurePattern a @ rapidPattern a
      in a \<lparr> details := (details a) \<lparr> suspiciousPatterns := patterns \<rparr> \<rparr>)"

text \<open>\<open>generateTrends\<close>: the loop over the hours 0 to 23 with its two running sums.\<close>

fun generateTrends_loop ::
  "analysisTrends \<Rightarrow> int list \<Rightarrow> real \<Rightarrow> real \<Rightarrow> cumEntry list \<Rightarrow> cumEntry list" where
  "generateTrends_loop tr [] cumulativeRewards cumulativeExchange out = out"
| "generateTrends_loop tr (h # hs) cumulativeRewards cumulativeExchange out =
     (let cr = cumulativeRewards + orZero (hourlyRewards tr (Hour h));
          ce = cumulativeExchange + orZero (hourlyExchangeFlows tr (Hour h))
      in generateTrends_loop tr hs cr ce
           (out @ [\<lparr> c_hour = h, c_rewards = cr, c_exchange = ce,
                      c_pressure = (if cr > 0 then jsTimes (jsDivide ce cr) 100 else Num 0) \<rparr>]))"

definition generateTrends :: "analysis \<Rightarrow> analysis" where
  "generateTrends a =
     a \<lparr> trends := (trends a)
          \<lparr> cumulativeSellPressure :=
              generateTrends_loop (trends a)
                [0, 1, 2, 3, 4, 5, 6, 7, 8, 9, 10, 11, 12, 13, 14, 15, 16, 17, 18, 19,
                 20, 21, 22, 23]
                0 0 (cumulativeSellPressure (trends a)) \<rparr> \<rparr>"

text \<open>
  \<open>analyzeFlows\<close>. Besides its argument it reads the analyzer's two thresholds, the clock
  (\<open>now\<close>) and, through \<open>getHours\<close>, the time zone of the process.
\<close>

definition analyzeFlows ::
  "flowAnalyzer \<Rightarrow> (int \<Rightarrow> int) \<Rightarrow> int
   \<Rightarrow> rewardEvent list \<Rightarrow> transfer list \<Rightarrow> exchangeFlow list \<Rightarrow> 'c \<Rightarrow> analysis" where
  "analyzeFlows this localTZA now rewardList transferList exchangeFlows topReceivers =
     (let a0 = initialAnalysis now;
          a1 = analyzeRewards localTZA rewardList a0;
          a2 = analyzeTransfers transferList a1;
          a3 = analyzeExchangeFlows this localTZA exchangeFlows a2;
          a4 = calculateSellPressure a3;
          a5 = identifyPatterns this localTZA a4 topReceivers
      in generateTrends a5)"

section \<open>Example inputs\<close>

definition binance :: exchangeInfo where
  "binance = \<lparr> ex_id = ''binance'', name = ''Binance'', ex_type = ''cex'' \<rparr>"

definition kraken :: exchangeInfo where
  "kraken = \<lparr> ex_id = ''kraken'', name = ''Kraken'', ex_type = ''cex'' \<rparr>"

definition registry :: exchangeDetector where
  "registry = [''X'' \<mapsto> binance, ''Y'' \<mapsto> kraken]"

definition mkTransfer :: "string \<Rightarrow> string \<Rightarrow> real \<Rightarrow> int \<Rightarrow> transfer" where
  "mkTransfer f t a ts =
     \<lparr> amount = a, timestamp = ts, blockNumber = 0, extrinsicHash = [],
       from_addr = f, to_addr = t, success = True, fee = 0,
       fromIdentity = None, toIdentity = None \<rparr>"

definition mkReward :: "string \<Rightarrow> real \<Rightarrow> int \<Rightarrow> rewardEvent" where
  "mkReward a amt ts =
     \<lparr> amount = amt, timestamp = ts, blockNumber = 0, extrinsicHash = [],
       address = a, eventId = [], rtype = ''staking_reward'' \<rparr>"

definition mkDeposit :: "string \<Rightarrow> real \<Rightarrow> int \<Rightarrow> exchangeFlow" where
  "mkDeposit f amt ts = mkFlow (mkTransfer f ''X'' amt ts) ''deposit'' binance ''X''"

definition utc :: "int \<Rightarrow> int" where
  "utc t = 0"

section \<open>Observations on the analysis object\<close>

text \<open>
  What the \<open>Map\<close>s of \<open>analysis.details\<close> hold for an address: the rewards recorded for it, the
  total of its outgoing transfers and the total of its exchange deposits (nothing, and so 0,
  for an address without an entry).
\<close>

definition rewardsAt :: "analysis \<Rightarrow> string \<Rightarrow> rewardEvent list" where
  "rewardsAt a k =
     (case map_of (rewardsByAddress (details a)) k of Some x \<Rightarrow> rewards x | None \<Rightarrow> [])"

definition transferTotalAt :: "analysis \<Rightarrow> string \<Rightarrow> real" where
  "transferTotalAt a k =
     (case map_of (transfersByAddress (details a)) k of Some x \<Rightarrow> total x | None \<Rightarrow> 0)"

definition exchangeTotalAt :: "analysis \<Rightarrow> string \<Rightarrow> real" where
  "exchangeTotalAt a k =
     (case map_of (exchangeFlowsByAddress (details a)) k of Some x \<Rightarrow> total x | None \<Rightarrow> 0)"

definition isDeposit :: "exchangeFlow \<Rightarrow> bool" where
  "isDeposit f = (ftype f = ''deposit'')"

text \<open>The quick-seller flag that \<open>exchangeFlowsByAddress\<close> holds for an address (unset without an entry).\<close>

definition quickSellAt :: "analysis \<Rightarrow> string \<Rightarrow> bool" where
  "quickSellAt a k =
     (case map_of (exchangeFlowsByAddress (details a)) k of Some x \<Rightarrow> quickSell x | None \<Rightarrow> False)"

text \<open>
  The time difference the exchange-flow pass records for a flow, given the analysis object it
  meets: none unless the flow is a deposit and its sender has recorded rewards.
\<close>

definition timeDiffOf :: "analysis \<Rightarrow> exchangeFlow \<Rightarrow> int list" where
  "timeDiffOf a f =
     (if isDeposit f \<and> rewardsAt a (from_addr f) \<noteq> []
      then [timestamp f - timestamp (last (rewardsAt a (from_addr f)))]
      else [])"

section \<open>Reference descriptions of the exchange-flow statistics\<close>

text \<open>
  The rewards of an address in input order, and the time difference that a run of
  \<open>analyzeFlows\<close> on the reward list \<open>rs\<close> records for a flow: for a deposit whose sender has at
  least one reward in \<open>rs\<close>, the flow's timestamp minus the timestamp of the sender's last
  reward in \<open>rs\<close>; nothing otherwise.
\<close>

definition rewardsOf :: "rewardEvent list \<Rightarrow> string \<Rightarrow> rewardEvent list" where
  "rewardsOf rs k = filter (\<lambda>r. address r = k) rs"

definition timeDiffIn :: "rewardEvent list \<Rightarrow> exchangeFlow \<Rightarrow> int list" where
  "timeDiffIn rs f =
     (if isDeposit f \<and> rewardsOf rs (from_addr f) \<noteq> []
      then [timestamp f - timestamp (last (rewardsOf rs (from_addr f)))]
      else [])"

text \<open>
  The local array \<open>timeToExchange\<close> of \<open>analyzeExchangeFlows\<close> when its loop ends, in a run of
  \<open>analyzeFlows\<close>.
\<close>

definition timeToExchangeOf ::
  "flowAnalyzer \<Rightarrow> (int \<Rightarrow> int) \<Rightarrow> int
   \<Rightarrow> rewardEvent list \<Rightarrow> transfer list \<Rightarrow> exchangeFlow list \<Rightarrow> int list" where
  "timeToExchangeOf this localTZA now rewardList transferList exchangeFlows =
     snd (analyzeExchangeFlows_loop this localTZA exchangeFlows
            (analyzeTransfers transferList
               (analyzeRewards localTZA rewardList (initialAnalysis now)), []))"

text \<open>Overwriting the two fields of the analysis object that come from the clock.\<close>

definition restamp :: "int \<Rightarrow> analysisPeriod \<Rightarrow> analysis \<Rightarrow> analysis" where
  "restamp t p a = a \<lparr> analysis_timestamp := t, period := p \<rparr>"

section \<open>Reference descriptions of the hour buckets\<close>

text \<open>
  The sum of the amounts of the events that \<open>getHours\<close> puts in hour \<open>h\<close> (no bucket when
  there is none), and the entries that the coordinated-selling grouping holds under hour \<open>h\<close>:
  one for every flow above the threshold that \<open>getHours\<close> puts in \<open>h\<close>, address by address.
\<close>

definition bucket :: "(int \<Rightarrow> int) \<Rightarrow> hour \<Rightarrow> 'a event_scheme list \<Rightarrow> real option" where
  "bucket localTZA h xs =
     (if filter (\<lambda>x. getHours localTZA (timestamp x) = h) xs = [] then None
      else Some (sum_list (map amount (filter (\<lambda>x. getHours localTZA (timestamp x) = h) xs))))"

definition largeEntries ::
  "flowAnalyzer \<Rightarrow> (int \<Rightarrow> int) \<Rightarrow> hour \<Rightarrow> string \<Rightarrow> exchangeFlow list \<Rightarrow> largeSeller list" where
  "largeEntries this localTZA h addr fs =
     map (\<lambda>f. \<lparr> ls_address = addr, ls_amount = amount f, ls_exchange = name (exchange f) \<rparr>)
       (filter (\<lambda>f. amount f > largeFlowThreshold this \<and> getHours localTZA (timestamp f) = h) fs)"

definition largeGroup ::
  "flowAnalyzer \<Rightarrow> (int \<Rightarrow> int) \<Rightarrow> hour \<Rightarrow> (string \<times> addrFlows) list \<Rightarrow> largeSeller list" where
  "largeGroup this localTZA h entries =
     concat (map (\<lambda>e. largeEntries this localTZA h (fst e) (flows (snd e))) entries)"

text \<open>A process whose local time is one hour ahead of UTC.\<close>

definition utcPlus1 :: "int \<Rightarrow> int" where
  "utcPlus1 t = 3600"

section \<open>Collectors: requests and responses\<close>

text \<open>
  \<open>makeRequest\<close> posts a request body to an endpoint of the remote API and returns
  \<open>response.data.data\<close>, or throws (transport error, timeout, or a non-zero \<open>code\<close>). The remote
  side is a parameter of the model: a function from the request to its outcome, \<open>Failed\<close> when
  \<open>makeRequest\<close> throws and \<open>Data\<close> with the list the caller reads (\<open>data.transfers\<close> or
  \<open>data.list\<close>), \<open>None\<close> when that list is missing. Every collector function returns, next to
  its result, the requests it sent, in order. The rate limiter and the pauses only delay the
  requests and are not modelled. Numeric fields of the rows are taken as already parsed
  (\<open>parseFloat\<close>, \<open>parseInt\<close>).
\<close>

record request =
  endpoint :: string
  req_address :: "string option"
  row :: nat
  page :: nat
  from_block_timestamp :: "int option"
  to_block_timestamp :: "int option"
  direction :: "string option"
  other_fields :: "(string \<times> string) list"

datatype 'r response = Failed | Data "'r list option"

record rawTransfer =
  raw_from :: string
  raw_to :: string
  raw_amount :: real
  raw_block_timestamp :: int
  raw_block_num :: int
  raw_extrinsic_hash :: string
  raw_success :: bool
  raw_fee :: real
  raw_from_display :: "string option"
  raw_to_display :: "string option"

text \<open>
  \<open>x?.display || null\<close>: a missing or empty display name becomes \<open>null\<close>.
\<close>

definition truthy :: "string option \<Rightarrow> string option" where
  "truthy v = (case v of Some d \<Rightarrow> (if d = [] then None else Some d) | None \<Rightarrow> None)"

definition toTransfer :: "rawTransfer \<Rightarrow> transfer" where
  "toTransfer x =
     \<lparr> amount = raw_amount x, timestamp = raw_block_timestamp x, blockNumber = raw_block_num x,
       extrinsicHash = raw_extrinsic_hash x,
       from_addr = raw_from x, to_addr = raw_to x, success = raw_success x, fee = raw_fee x,
       fromIdentity = truthy (raw_from_display x), toIdentity = truthy (raw_to_display x) \<rparr>"

definition rowsPerPage :: nat where
  "rowsPerPage = 100"

definition transfersRequest :: "string \<Rightarrow> string \<Rightarrow> int \<Rightarrow> int \<Rightarrow> nat \<Rightarrow> request" where
  "transfersRequest dir addr startTime endTime p =
     \<lparr> endpoint = ''/api/scan/transfers'', req_address = Some addr, row = rowsPerPage, page = p,
       from_block_timestamp = Some startTime, to_block_timestamp = Some endTime,
       direction = Some dir, other_fields = [] \<rparr>"

text \<open>
  The loop \<open>while (true)\<close> of \<open>fetchTransfersForAddress\<close> and \<open>fetchIncomingTransfers\<close>, which differ
  in the \<open>direction\<close> field of the request only. It ends at a failed request (the \<open>catch\<close> breaks),
  at a missing or empty list and, after keeping the rows, at a page shorter than
  \<open>rowsPerPage\<close>; otherwise it goes on with the next page. Nothing bounds the number of pages, so
  the loop is a partial function: \<open>None\<close> is a run that never returns.
\<close>

partial_function (option) fetchTransfers_loop ::
  "(request \<Rightarrow> rawTransfer response) \<Rightarrow> string \<Rightarrow> string \<Rightarrow> int \<Rightarrow> int
   \<Rightarrow> nat \<Rightarrow> transfer list \<Rightarrow> request list \<Rightarrow> (transfer list \<times> request list) option" where
  "fetchTransfers_loop makeRequest dir addr startTime endTime p trs reqs =
     (case makeRequest (transfersRequest dir addr startTime endTime p) of
        Failed \<Rightarrow> Some (trs, reqs @ [transfersRequest dir addr startTime endTime p])
      | Data None \<Rightarrow> Some (trs, reqs @ [transfersRequest dir addr startTime endTime p])
      | Data (Some rows) \<Rightarrow>
          if length rows = 0 then Some (trs, reqs @ [transfersRequest dir addr startTime endTime p])
          else if length rows < rowsPerPage
          then Some (trs @ map toTransfer rows, reqs @ [transfersRequest dir addr startTime endTime p])
          else fetchTransfers_loop makeRequest dir addr startTime endTime (p + 1)
                 (trs @ map toTransfer rows)
                 (reqs @ [transfersRequest dir addr startTime endTime p]))"

definition fetchTransfersForAddress ::
  "(request \<Rightarrow> rawTransfer response) \<Rightarrow> string \<Rightarrow> int \<Rightarrow> int
   \<Rightarrow> (transfer list \<times> request list) option" where
  "fetchTransfersForAddress makeRequest addr startTime endTime =
     fetchTransfers_loop makeRequest ''from'' addr startTime endTime 0 [] []"

definition fetchIncomingTransfers ::
  "(request \<Rightarrow> rawTransfer response) \<Rightarrow> string \<Rightarrow> int \<Rightarrow> int
   \<Rightarrow> (transfer list \<times> request list) option" where
  "fetchIncomingTransfers makeRequest addr startTime endTime =
     fetchTransfers_loop makeRequest ''to'' addr startTime endTime 0 [] []"


record rawReward =
  rr_amount :: real
  rr_block_num :: int
  rr_block_timestamp :: int
  rr_extrinsic_hash :: string
  rr_event_id :: string

record receiver =
  rcv_address :: string
  rcv_totalRewards :: real
  rcv_rewardCount :: nat
  rcv_lastRewardBlock :: int
  rcv_identity :: "string option"
  rcv_balance :: real

definition toReward :: "string \<Rightarrow> rawReward \<Rightarrow> rewardEvent" where
  "toReward addr x =
     \<lparr> amount = rr_amount x / 10000000000, timestamp = rr_block_timestamp x,
       blockNumber = rr_block_num x, extrinsicHash = rr_extrinsic_hash x,
       address = addr, eventId = rr_event_id x, rtype = ''staking_reward'' \<rparr>"

text \<open>
  \<open>fetchRecentRewards\<close>: for every receiver one request, with \<open>row: 20\<close> and \<open>page: 0\<close>; the
  rewards inside the time window are kept. A failed request is caught and adds nothing. The
  receivers are taken in batches of 5, one after the other.
\<close>

definition rewardsRequest :: "string \<Rightarrow> request" where
  "rewardsRequest addr =
     \<lparr> endpoint = ''/api/scan/account/reward_slash'', req_address = Some addr, row = 20, page = 0,
       from_block_timestamp = None, to_block_timestamp = None, direction = None,
       other_fields = [] \<rparr>"

definition fetchRewards_receiver ::
  "(request \<Rightarrow> rawReward response) \<Rightarrow> int \<Rightarrow> int \<Rightarrow> receiver
   \<Rightarrow> rewardEvent list \<times> request list \<Rightarrow> rewardEvent list \<times> request list" where
  "fetchRewards_receiver makeRequest startTime endTime rc st =
     (case st of (rws, reqs) \<Rightarrow>
        (case makeRequest (rewardsRequest (rcv_address rc)) of
           Failed \<Rightarrow> (rws, reqs @ [rewardsRequest (rcv_address rc)])
         | Data None \<Rightarrow> (rws, reqs @ [rewardsRequest (rcv_address rc)])
         | Data (Some rows) \<Rightarrow>
             (rws @ map (toReward (rcv_address rc))
                      (filter (\<lambda>x. rr_block_timestamp x \<ge> startTime
                                   \<and> rr_block_timestamp x \<le> endTime) rows),
              reqs @ [rewardsRequest (rcv_address rc)])))"

fun fetchRewards_batch ::
  "(request \<Rightarrow> rawReward response) \<Rightarrow> int \<Rightarrow> int \<Rightarrow> receiver list
   \<Rightarrow> rewardEvent list \<times> request list \<Rightarrow> rewardEvent list \<times> request list" where
  "fetchRewards_batch makeRequest startTime endTime [] st = st"
| "fetchRewards_batch makeRequest startTime endTime (rc # batch) st =
     fetchRewards_batch makeRequest startTime endTime batch
       (fetchRewards_receiver makeRequest startTime endTime rc st)"

function fetchRewards_batches ::
  "(request \<Rightarrow> rawReward response) \<Rightarrow> int \<Rightarrow> int \<Rightarrow> receiver list \<Rightarrow> nat
   \<Rightarrow> rewardEvent list \<times> request list \<Rightarrow> rewardEvent list \<times> request list" where
  "fetchRewards_batches makeRequest startTime endTime addresses i st =
     (if i < length addresses
      then fetchRewards_batches makeRequest startTime endTime addresses (i + 5)
             (fetchRewards_batch makeRequest startTime endTime (take 5 (drop i addresses)) st)
      else st)"
  by pat_completeness auto
termination
  by (relation "measure (\<lambda>(makeRequest, startTime, endTime, addresses, i, st). length addresses - i)")
     auto

definition fetchRecentRewards ::
  "(request \<Rightarrow> rawReward response) \<Rightarrow> int \<Rightarrow> receiver list \<Rightarrow> int
   \<Rightarrow> rewardEvent list \<times> request list" where
  "fetchRecentRewards makeRequest now addresses hours =
     (let endTime = now;
          startTime = endTime - hours * 3600
      in fetchRewards_batches makeRequest startTime endTime addresses 0 ([], []))"

record rawAccount =
  acc_address :: string
  acc_account_display :: "string option"
  acc_display :: "string option"
  acc_balance :: real

definition toReceiver :: "rawAccount \<Rightarrow> receiver" where
  "toReceiver x =
     \<lparr> rcv_address = acc_address x, rcv_totalRewards = 0, rcv_rewardCount = 0,
       rcv_lastRewardBlock = 0,
       rcv_identity = (case truthy (acc_account_display x) of
                         Some d \<Rightarrow> Some d
                       | None \<Rightarrow> truthy (acc_display x)),
       rcv_balance = acc_balance x \<rparr>"

text \<open>
  \<open>fetchTopRewardReceivers\<close>: while fewer than \<open>limit\<close> receivers are held, request the next
  page; stop at a failed request or a missing or empty list; keep accounts up to the limit.
\<close>

definition accountsRequest :: "nat \<Rightarrow> request" where
  "accountsRequest p =
     \<lparr> endpoint = ''/api/scan/accounts'', req_address = None, row = rowsPerPage, page = p,
       from_block_timestamp = None, to_block_timestamp = None, direction = None,
       other_fields = [(''order'', ''desc''), (''order_field'', ''balance''),
                       (''filter'', ''validator'')] \<rparr>"

function fetchTopRewardReceivers_loop ::
  "(request \<Rightarrow> rawAccount response) \<Rightarrow> nat \<Rightarrow> nat \<Rightarrow> receiver list \<Rightarrow> request list
   \<Rightarrow> receiver list \<times> request list" where
  "fetchTopRewardReceivers_loop makeRequest limit p receivers reqs =
     (if length receivers < limit then
        (case makeRequest (accountsRequest p) of
           Failed \<Rightarrow> (receivers, reqs @ [accountsRequest p])
         | Data None \<Rightarrow> (receivers, reqs @ [accountsRequest p])
         | Data (Some rows) \<Rightarrow>
             if length rows = 0 then (receivers, reqs @ [accountsRequest p])
             else fetchTopRewardReceivers_loop makeRequest limit (p + 1)
                    (receivers @ take (limit - length receivers) (map toReceiver rows))
                    (reqs @ [accountsRequest p]))
      else (receivers, reqs))"
  by pat_completeness auto
termination
  by (relation "measure (\<lambda>(makeRequest, limit, p, receivers, reqs). limit - length receivers)")
     (auto simp add: min_def neq_Nil_conv)

definition fetchTopRewardReceivers ::
  "(request \<Rightarrow> rawAccount response) \<Rightarrow> nat \<Rightarrow> receiver list \<times> request list" where
  "fetchTopRewardReceivers makeRequest limit =
     fetchTopRewardReceivers_loop makeRequest limit 0 [] []"


text \<open>
  The rows of a response (none when the request failed or the list is missing), and whether
  they fill a page of the paginated endpoints.
\<close>

definition pageRows :: "'r response \<Rightarrow> 'r list" where
  "pageRows r = (case r of Data (Some rows) \<Rightarrow> rows | _ \<Rightarrow> [])"

definition fullPage :: "'r response \<Rightarrow> bool" where
  "fullPage r = (rowsPerPage \<le> length (pageRows r))"


text \<open>
  Example servers: transfers with a full first page and three rows on every later page;
  rewards with 20 rows on every page; accounts with two rows on the first page and none
  later.
\<close>

definition sampleRawTransfer :: rawTransfer where
  "sampleRawTransfer =
     \<lparr> raw_from = ''A'', raw_to = ''X'', raw_amount = 5, raw_block_timestamp = 50,
       raw_block_num = 7, raw_extrinsic_hash = ''0x01'', raw_success = True, raw_fee = 0,
       raw_from_display = None, raw_to_display = None \<rparr>"

definition twoPageServer :: "request \<Rightarrow> rawTransfer response" where
  "twoPageServer req =
     (if page req = 0 then Data (Some (replicate 100 sampleRawTransfer))
      else Data (Some (replicate 3 sampleRawTransfer)))"

definition sampleRawReward :: rawReward where
  "sampleRawReward =
     \<lparr> rr_amount = 10000000000, rr_block_num = 7, rr_block_timestamp = 50,
       rr_extrinsic_hash = ''0x02'', rr_event_id = ''7-1'' \<rparr>"

definition fullRewardServer :: "request \<Rightarrow> rawReward response" where
  "fullRewardServer req = Data (Some (replicate 20 sampleRawReward))"

definition receiverA :: receiver where
  "receiverA =
     \<lparr> rcv_address = ''A'', rcv_totalRewards = 0, rcv_rewardCount = 0, rcv_lastRewardBlock = 0,
       rcv_identity = None, rcv_balance = 1 \<rparr>"

definition sampleAccount :: rawAccount where
  "sampleAccount =
     \<lparr> acc_address = ''A'', acc_account_display = None, acc_display = None, acc_balance = 1 \<rparr>"

definition shortAccountServer :: "request \<Rightarrow> rawAccount response" where
  "shortAccountServer req =
     (if page req = 0 then Data (Some [sampleAccount, sampleAccount]) else Data (Some []))"

section \<open>Facts about ExchangeDetector\<close>

lemma mkFlow_sel:
  "amount (mkFlow t ty ex ea) = amount t"
  "timestamp (mkFlow t ty ex ea) = timestamp t"
  "from_addr (mkFlow t ty ex ea) = from_addr t"
  "to_addr (mkFlow t ty ex ea) = to_addr t"
  "ftype (mkFlow t ty ex ea) = ty"
  "exchange (mkFlow t ty ex ea) = ex"
  "exchangeAddress (mkFlow t ty ex ea) = ea"
  by (simp_all add: mkFlow_def)

lemma detect_loop_acc:
  "detectExchangeTransfers_loop ebA ts acc = acc @ concat (map (detectOne ebA) ts)"
  by (induction ts arbitrary: acc) simp_all

lemma detect_concat:
  "detectExchangeTransfers ebA ts = concat (map (detectOne ebA) ts)"
  by (simp add: detectExchangeTransfers_def detect_loop_acc)

lemma detect_append:
  "detectExchangeTransfers ebA (xs @ ys) =
     detectExchangeTransfers ebA xs @ detectExchangeTransfers ebA ys"
  by (simp add: detect_concat)

lemma detect_length_le: "length (detectOne ebA t) \<le> 2"
  by (simp add: detectOne_def Let_def split: option.splits)

text \<open>
  Claim C10. A transfer whose destination and source are both registered exchange addresses
  yields two flow records: first a copy of the transfer with type \<open>deposit\<close>, the exchange of
  the destination and the destination as exchange address, then a copy of the transfer with
  type \<open>withdrawal\<close>, the exchange of the source and the source as exchange address; so the
  output is strictly longer than the input when the input is that one transfer.
\<close>

theorem detect_both_directions:
  assumes "ebA (to_addr t) = Some exTo" and "ebA (from_addr t) = Some exFrom"
  shows "detectExchangeTransfers ebA (pre @ t # post) =
           detectExchangeTransfers ebA pre
           @ [\<lparr> amount = amount t, timestamp = timestamp t, blockNumber = blockNumber t,
                extrinsicHash = extrinsicHash t,
                from_addr = from_addr t, to_addr = to_addr t, success = success t, fee = fee t,
                fromIdentity = fromIdentity t, toIdentity = toIdentity t,
                ftype = ''deposit'', exchange = exTo, exchangeAddress = to_addr t \<rparr>,
              \<lparr> amount = amount t, timestamp = timestamp t, blockNumber = blockNumber t,
                extrinsicHash = extrinsicHash t,
                from_addr = from_addr t, to_addr = to_addr t, success = success t, fee = fee t,
                fromIdentity = fromIdentity t, toIdentity = toIdentity t,
                ftype = ''withdrawal'', exchange = exFrom, exchangeAddress = from_addr t \<rparr>]
           @ detectExchangeTransfers ebA post
         \<and> length (detectExchangeTransfers ebA [t]) = 2
         \<and> length [t] < length (detectExchangeTransfers ebA [t])"
  using assms by (simp add: detect_concat detectOne_def getExchangeInfo_def mkFlow_def)

lemma mkTransfer_sel:
  "amount (mkTransfer f t a ts) = a"
  "timestamp (mkTransfer f t a ts) = ts"
  "from_addr (mkTransfer f t a ts) = f"
  "to_addr (mkTransfer f t a ts) = t"
  by (simp_all add: mkTransfer_def)

lemma mkTransfer_more_sel:
  "blockNumber (mkTransfer f t a ts) = 0"
  "extrinsicHash (mkTransfer f t a ts) = []"
  "success (mkTransfer f t a ts) = True"
  "fee (mkTransfer f t a ts) = 0"
  "fromIdentity (mkTransfer f t a ts) = None"
  "toIdentity (mkTransfer f t a ts) = None"
  by (simp_all add: mkTransfer_def)

theorem detect_both_directions_witness:
  "registry (to_addr (mkTransfer ''Y'' ''X'' 5 0)) = Some binance
   \<and> registry (from_addr (mkTransfer ''Y'' ''X'' 5 0)) = Some kraken
   \<and> detectExchangeTransfers registry ([] @ mkTransfer ''Y'' ''X'' 5 0 # []) =
       detectExchangeTransfers registry []
       @ [\<lparr> amount = 5, timestamp = 0, blockNumber = 0, extrinsicHash = [],
            from_addr = ''Y'', to_addr = ''X'', success = True, fee = 0,
            fromIdentity = None, toIdentity = None,
            ftype = ''deposit'',
            exchange = \<lparr> ex_id = ''binance'', name = ''Binance'', ex_type = ''cex'' \<rparr>,
            exchangeAddress = ''X'' \<rparr>,
          \<lparr> amount = 5, timestamp = 0, blockNumber = 0, extrinsicHash = [],
            from_addr = ''Y'', to_addr = ''X'', success = True, fee = 0,
            fromIdentity = None, toIdentity = None,
            ftype = ''withdrawal'',
            exchange = \<lparr> ex_id = ''kraken'', name = ''Kraken'', ex_type = ''cex'' \<rparr>,
            exchangeAddress = ''Y'' \<rparr>]
       @ detectExchangeTransfers registry []
   \<and> length (detectExchangeTransfers registry [mkTransfer ''Y'' ''X'' 5 0]) = 2
   \<and> length [mkTransfer ''Y'' ''X'' 5 0]
       < length (detectExchangeTransfers registry [mkTransfer ''Y'' ''X'' 5 0])"
proof -
  have a: "registry (to_addr (mkTransfer ''Y'' ''X'' 5 0)) = Some binance"
    by (simp add: registry_def mkTransfer_sel)
  have b: "registry (from_addr (mkTransfer ''Y'' ''X'' 5 0)) = Some kraken"
    by (simp add: registry_def mkTransfer_sel)
  from detect_both_directions [OF a b, of "[]" "[]"] a b show ?thesis
    unfolding mkTransfer_sel mkTransfer_more_sel binance_def kraken_def by blast
qed

section \<open>The reward pass\<close>

lemma rstep_summary:
  "summary (analyzeRewards_step tz r a) = (summary a)\<lparr>totalRewards := totalRewards (summary a) + amount r\<rparr>"
  by (simp add: analyzeRewards_step_def Let_def)

lemma rstep_other:
  "analysis_timestamp (analyzeRewards_step tz r a) = analysis_timestamp a"
  "period (analyzeRewards_step tz r a) = period a"
  "transfersByAddress (details (analyzeRewards_step tz r a)) = transfersByAddress (details a)"
  "exchangeFlowsByAddress (details (analyzeRewards_step tz r a)) = exchangeFlowsByAddress (details a)"
  "hourlyExchangeFlows (trends (analyzeRewards_step tz r a)) = hourlyExchangeFlows (trends a)"
  by (simp_all add: analyzeRewards_step_def Let_def)

lemma rstep_keys:
  "fst ` set (rewardsByAddress (details (analyzeRewards_step tz r a))) =
     insert (address r) (fst ` set (rewardsByAddress (details a)))"
  using update_keys [of "address r" _ "rewardsByAddress (details a)"]
  by (auto simp add: analyzeRewards_step_def Let_def simp flip: set_map)

lemma rstep_rewardsAt:
  "rewardsAt (analyzeRewards_step tz r a) k = rewardsAt a k @ (if address r = k then [r] else [])"
  by (simp add: analyzeRewards_step_def Let_def rewardsAt_def update_conv' split: option.splits)

lemma rewards_summary:
  "summary (analyzeRewards tz rs a) = (summary a)\<lparr>totalRewards := totalRewards (summary a) + sum_list (map amount rs)\<rparr>"
  by (induction rs arbitrary: a) (simp_all add: rstep_summary algebra_simps)

lemma rewards_other:
  "analysis_timestamp (analyzeRewards tz rs a) = analysis_timestamp a"
  "period (analyzeRewards tz rs a) = period a"
  "transfersByAddress (details (analyzeRewards tz rs a)) = transfersByAddress (details a)"
  "exchangeFlowsByAddress (details (analyzeRewards tz rs a)) = exchangeFlowsByAddress (details a)"
  "hourlyExchangeFlows (trends (analyzeRewards tz rs a)) = hourlyExchangeFlows (trends a)"
  by (induction rs arbitrary: a) (simp_all add: rstep_other)

lemma rewards_keys:
  "fst ` set (rewardsByAddress (details (analyzeRewards tz rs a))) =
     fst ` set (rewardsByAddress (details a)) \<union> address ` set rs"
  by (induction rs arbitrary: a) (simp_all add: rstep_keys)

lemma rewards_rewardsAt:
  "rewardsAt (analyzeRewards tz rs a) k = rewardsAt a k @ filter (\<lambda>r. address r = k) rs"
  by (induction rs arbitrary: a) (simp_all add: rstep_rewardsAt)

section \<open>The transfer pass\<close>

lemma tstep_summary:
  "summary (analyzeTransfers_step t a) = (summary a)\<lparr>totalTransfers := totalTransfers (summary a) + amount t\<rparr>"
  by (simp add: analyzeTransfers_step_def Let_def)

lemma tstep_other:
  "analysis_timestamp (analyzeTransfers_step t a) = analysis_timestamp a"
  "period (analyzeTransfers_step t a) = period a"
  "rewardsByAddress (details (analyzeTransfers_step t a)) = rewardsByAddress (details a)"
  "exchangeFlowsByAddress (details (analyzeTransfers_step t a)) = exchangeFlowsByAddress (details a)"
  "trends (analyzeTransfers_step t a) = trends a"
  by (simp_all add: analyzeTransfers_step_def Let_def)

lemma tstep_total:
  "transferTotalAt (analyzeTransfers_step t a) k = transferTotalAt a k + (if from_addr t = k then amount t else 0)"
  by (simp add: analyzeTransfers_step_def Let_def transferTotalAt_def update_conv' split: option.splits)

lemma transfers_summary:
  "summary (analyzeTransfers ts a) = (summary a)\<lparr>totalTransfers := totalTransfers (summary a) + sum_list (map amount ts)\<rparr>"
  by (induction ts arbitrary: a) (simp_all add: tstep_summary algebra_simps)

lemma transfers_other:
  "analysis_timestamp (analyzeTransfers ts a) = analysis_timestamp a"
  "period (analyzeTransfers ts a) = period a"
  "rewardsByAddress (details (analyzeTransfers ts a)) = rewardsByAddress (details a)"
  "exchangeFlowsByAddress (details (analyzeTransfers ts a)) = exchangeFlowsByAddress (details a)"
  "trends (analyzeTransfers ts a) = trends a"
  by (induction ts arbitrary: a) (simp_all add: tstep_other)

lemma transfers_total:
  "transferTotalAt (analyzeTransfers ts a) k =
     transferTotalAt a k + sum_list (map amount (filter (\<lambda>t. from_addr t = k) ts))"
  by (induction ts arbitrary: a) (simp_all add: tstep_total)

section \<open>The exchange-flow pass\<close>

lemma fstep_skip:
  "\<not> isDeposit f \<Longrightarrow> analyzeExchangeFlows_step this tz f st = st"
  by (cases st) (simp add: analyzeExchangeFlows_step_def isDeposit_def)

lemma fstep_other:
  "analysis_timestamp (fst (analyzeExchangeFlows_step this tz f st)) = analysis_timestamp (fst st)"
  "period (fst (analyzeExchangeFlows_step this tz f st)) = period (fst st)"
  "rewardsByAddress (details (fst (analyzeExchangeFlows_step this tz f st))) = rewardsByAddress (details (fst st))"
  "transfersByAddress (details (fst (analyzeExchangeFlows_step this tz f st))) = transfersByAddress (details (fst st))"
  "hourlyRewards (trends (fst (analyzeExchangeFlows_step this tz f st))) = hourlyRewards (trends (fst st))"
  "totalRewards (summary (fst (analyzeExchangeFlows_step this tz f st))) = totalRewards (summary (fst st))"
  "totalTransfers (summary (fst (analyzeExchangeFlows_step this tz f st))) = totalTransfers (summary (fst st))"
  "holders (summary (fst (analyzeExchangeFlows_step this tz f st))) = holders (summary (fst st))"
  "sellPressurePercent (summary (fst (analyzeExchangeFlows_step this tz f st))) = sellPressurePercent (summary (fst st))"
  "averageTimeToExchange (summary (fst (analyzeExchangeFlows_step this tz f st))) = averageTimeToExchange (summary (fst st))"
  by (cases st; simp add: analyzeExchangeFlows_step_def Let_def split: option.splits)+

lemma fstep_exchangeFlow:
  "exchangeFlow (summary (fst (analyzeExchangeFlows_step this tz f st))) =
     exchangeFlow (summary (fst st)) + (if isDeposit f then amount f else 0)"
  by (cases st) (simp add: analyzeExchangeFlows_step_def Let_def isDeposit_def split: option.splits)

lemma fstep_tte:
  "snd (analyzeExchangeFlows_step this tz f st) = snd st @ timeDiffOf (fst st) f"
  by (cases st) (simp add: analyzeExchangeFlows_step_def Let_def isDeposit_def timeDiffOf_def rewardsAt_def split: option.splits)

lemma fstep_quickSellers:
  "quickSellers (summary (fst (analyzeExchangeFlows_step this tz f st))) =
     quickSellers (summary (fst st))
     + length (filter (\<lambda>d. d < rapidSellThreshold this) (timeDiffOf (fst st) f))"
  by (cases st) (simp add: analyzeExchangeFlows_step_def Let_def isDeposit_def timeDiffOf_def rewardsAt_def split: option.splits)

lemma fstep_total:
  "exchangeTotalAt (fst (analyzeExchangeFlows_step this tz f st)) k =
     exchangeTotalAt (fst st) k + (if isDeposit f \<and> from_addr f = k then amount f else 0)"
  by (cases st) (simp add: analyzeExchangeFlows_step_def Let_def isDeposit_def exchangeTotalAt_def update_conv' split: option.splits)

lemma fstep_keys:
  "fst ` set (exchangeFlowsByAddress (details (fst (analyzeExchangeFlows_step this tz f st)))) =
     fst ` set (exchangeFlowsByAddress (details (fst st))) \<union> (if isDeposit f then {from_addr f} else {})"
  apply (cases st)
  apply (simp add: analyzeExchangeFlows_step_def Let_def isDeposit_def split: option.splits flip: set_map)
  apply (auto simp add: update_keys)
  done

lemma timeDiffOf_cong:
  "rewardsByAddress (details a) = rewardsByAddress (details b) \<Longrightarrow> timeDiffOf a = timeDiffOf b"
  by (rule ext) (simp add: timeDiffOf_def rewardsAt_def)

lemma floop_other:
  "analysis_timestamp (fst (analyzeExchangeFlows_loop this tz fs st)) = analysis_timestamp (fst st)"
  "period (fst (analyzeExchangeFlows_loop this tz fs st)) = period (fst st)"
  "rewardsByAddress (details (fst (analyzeExchangeFlows_loop this tz fs st))) = rewardsByAddress (details (fst st))"
  "transfersByAddress (details (fst (analyzeExchangeFlows_loop this tz fs st))) = transfersByAddress (details (fst st))"
  "hourlyRewards (trends (fst (analyzeExchangeFlows_loop this tz fs st))) = hourlyRewards (trends (fst st))"
  "totalRewards (summary (fst (analyzeExchangeFlows_loop this tz fs st))) = totalRewards (summary (fst st))"
  "totalTransfers (summary (fst (analyzeExchangeFlows_loop this tz fs st))) = totalTransfers (summary (fst st))"
  "holders (summary (fst (analyzeExchangeFlows_loop this tz fs st))) = holders (summary (fst st))"
  "sellPressurePercent (summary (fst (analyzeExchangeFlows_loop this tz fs st))) = sellPressurePercent (summary (fst st))"
  "averageTimeToExchange (summary (fst (analyzeExchangeFlows_loop this tz fs st))) = averageTimeToExchange (summary (fst st))"
  by (induction fs arbitrary: st; simp add: fstep_other)+

lemma floop_exchangeFlow:
  "exchangeFlow (summary (fst (analyzeExchangeFlows_loop this tz fs st))) =
     exchangeFlow (summary (fst st)) + sum_list (map amount (filter isDeposit fs))"
  by (induction fs arbitrary: st) (simp_all add: fstep_exchangeFlow)

lemma floop_tte:
  "snd (analyzeExchangeFlows_loop this tz fs st) = snd st @ concat (map (timeDiffOf (fst st)) fs)"
proof (induction fs arbitrary: st)
  case Nil
  then show ?case by simp
next
  case (Cons f fs)
  have "timeDiffOf (fst (analyzeExchangeFlows_step this tz f st)) = timeDiffOf (fst st)"
    by (rule timeDiffOf_cong) (simp add: fstep_other)
  then show ?case by (simp add: Cons.IH fstep_tte)
qed

lemma floop_quickSellers:
  "quickSellers (summary (fst (analyzeExchangeFlows_loop this tz fs st))) =
     quickSellers (summary (fst st))
     + length (filter (\<lambda>d. d < rapidSellThreshold this) (concat (map (timeDiffOf (fst st)) fs)))"
proof (induction fs arbitrary: st)
  case Nil
  then show ?case by simp
next
  case (Cons f fs)
  have "timeDiffOf (fst (analyzeExchangeFlows_step this tz f st)) = timeDiffOf (fst st)"
    by (rule timeDiffOf_cong) (simp add: fstep_other)
  then show ?case by (simp add: Cons.IH fstep_quickSellers)
qed

lemma floop_total:
  "exchangeTotalAt (fst (analyzeExchangeFlows_loop this tz fs st)) k =
     exchangeTotalAt (fst st) k
     + sum_list (map amount (filter (\<lambda>f. isDeposit f \<and> from_addr f = k) fs))"
  by (induction fs arbitrary: st) (simp_all add: fstep_total)

lemma floop_keys:
  "fst ` set (exchangeFlowsByAddress (details (fst (analyzeExchangeFlows_loop this tz fs st)))) =
     fst ` set (exchangeFlowsByAddress (details (fst st))) \<union> from_addr ` set (filter isDeposit fs)"
  by (induction fs arbitrary: st) (auto simp add: fstep_keys)

text \<open>The closing step of \<open>analyzeExchangeFlows\<close> writes only \<open>averageTimeToExchange\<close>.\<close>

lemma flows_loop_fields:
  "analysis_timestamp (analyzeExchangeFlows this tz fs a) = analysis_timestamp (fst (analyzeExchangeFlows_loop this tz fs (a, [])))"
  "period (analyzeExchangeFlows this tz fs a) = period (fst (analyzeExchangeFlows_loop this tz fs (a, [])))"
  "details (analyzeExchangeFlows this tz fs a) = details (fst (analyzeExchangeFlows_loop this tz fs (a, [])))"
  "trends (analyzeExchangeFlows this tz fs a) = trends (fst (analyzeExchangeFlows_loop this tz fs (a, [])))"
  "totalRewards (summary (analyzeExchangeFlows this tz fs a)) = totalRewards (summary (fst (analyzeExchangeFlows_loop this tz fs (a, []))))"
  "totalTransfers (summary (analyzeExchangeFlows this tz fs a)) = totalTransfers (summary (fst (analyzeExchangeFlows_loop this tz fs (a, []))))"
  "exchangeFlow (summary (analyzeExchangeFlows this tz fs a)) = exchangeFlow (summary (fst (analyzeExchangeFlows_loop this tz fs (a, []))))"
  "sellPressurePercent (summary (analyzeExchangeFlows this tz fs a)) = sellPressurePercent (summary (fst (analyzeExchangeFlows_loop this tz fs (a, []))))"
  "quickSellers (summary (analyzeExchangeFlows this tz fs a)) = quickSellers (summary (fst (analyzeExchangeFlows_loop this tz fs (a, []))))"
  "holders (summary (analyzeExchangeFlows this tz fs a)) = holders (summary (fst (analyzeExchangeFlows_loop this tz fs (a, []))))"
  by (simp_all add: analyzeExchangeFlows_def Let_def split: prod.splits)

lemma flows_average:
  "averageTimeToExchange (summary (analyzeExchangeFlows this tz fs a)) =
     (let tte = snd (analyzeExchangeFlows_loop this tz fs (a, []))
      in if tte = [] then averageTimeToExchange (summary a)
         else real_of_int (sum_list tte) / real (length tte) / 3600)"
  using floop_other(10) [of this tz fs "(a, [])"]
  by (cases "analyzeExchangeFlows_loop this tz fs (a, [])")
     (simp add: analyzeExchangeFlows_def Let_def)

section \<open>The later passes\<close>

lemma countHolders_eq:
  "countHolders xs ex h = h + length (filter (\<lambda>addr. addr \<notin> set ex) xs)"
  by (induction xs arbitrary: h) simp_all

lemma csp_fields:
  "analysis_timestamp (calculateSellPressure a) = analysis_timestamp a"
  "period (calculateSellPressure a) = period a"
  "trends (calculateSellPressure a) = trends a"
  "rewardsByAddress (details (calculateSellPressure a)) = rewardsByAddress (details a)"
  "transfersByAddress (details (calculateSellPressure a)) = transfersByAddress (details a)"
  "exchangeFlowsByAddress (details (calculateSellPressure a)) = exchangeFlowsByAddress (details a)"
  "totalRewards (summary (calculateSellPressure a)) = totalRewards (summary a)"
  "totalTransfers (summary (calculateSellPressure a)) = totalTransfers (summary a)"
  "exchangeFlow (summary (calculateSellPressure a)) = exchangeFlow (summary a)"
  "quickSellers (summary (calculateSellPressure a)) = quickSellers (summary a)"
  "averageTimeToExchange (summary (calculateSellPressure a)) = averageTimeToExchange (summary a)"
  by (simp_all add: calculateSellPressure_def Let_def)

lemma csp_sellPressure:
  "sellPressurePercent (summary (calculateSellPressure a)) =
     (if totalRewards (summary a) > 0
      then jsTimes (jsDivide (exchangeFlow (summary a)) (totalRewards (summary a))) 100
      else sellPressurePercent (summary a))"
  by (simp add: calculateSellPressure_def Let_def)

lemma csp_holders:
  "holders (summary (calculateSellPressure a)) =
     holders (summary a)
     + card (fst ` set (rewardsByAddress (details a)) - fst ` set (exchangeFlowsByAddress (details a)))"
proof -
  have "length (filter (\<lambda>x. x \<notin> B) (remdups xs)) = card (set xs - B)" for xs :: "string list" and B
  proof -
    have "distinct (filter (\<lambda>x. x \<notin> B) (remdups xs))" by simp
    then have "length (filter (\<lambda>x. x \<notin> B) (remdups xs)) = card (set (filter (\<lambda>x. x \<notin> B) (remdups xs)))"
      by (rule distinct_card [symmetric])
    also have "set (filter (\<lambda>x. x \<notin> B) (remdups xs)) = set xs - B" by auto
    finally show ?thesis .
  qed
  from this [of "fst ` set (exchangeFlowsByAddress (details a))" "map fst (rewardsByAddress (details a))"]
  show ?thesis by (simp add: calculateSellPressure_def Let_def countHolders_eq)
qed

lemma ip_fields:
  "analysis_timestamp (identifyPatterns this tz a rcv) = analysis_timestamp a"
  "period (identifyPatterns this tz a rcv) = period a"
  "trends (identifyPatterns this tz a rcv) = trends a"
  "summary (identifyPatterns this tz a rcv) = summary a"
  "rewardsByAddress (details (identifyPatterns this tz a rcv)) = rewardsByAddress (details a)"
  "transfersByAddress (details (identifyPatterns this tz a rcv)) = transfersByAddress (details a)"
  "exchangeFlowsByAddress (details (identifyPatterns this tz a rcv)) = exchangeFlowsByAddress (details a)"
  by (simp_all add: identifyPatterns_def Let_def)

lemma gt_fields:
  "analysis_timestamp (generateTrends a) = analysis_timestamp a"
  "period (generateTrends a) = period a"
  "summary (generateTrends a) = summary a"
  "details (generateTrends a) = details a"
  "hourlyRewards (trends (generateTrends a)) = hourlyRewards (trends a)"
  "hourlyExchangeFlows (trends (generateTrends a)) = hourlyExchangeFlows (trends a)"
  by (simp_all add: generateTrends_def del: generateTrends_loop.simps)

section \<open>The whole run\<close>

lemma initial_fields:
  "analysis_timestamp (initialAnalysis now) = now"
  "period (initialAnalysis now) = \<lparr> period_start = now - 86400, period_end = now \<rparr>"
  "summary (initialAnalysis now) =
     \<lparr> totalRewards = 0, totalTransfers = 0, exchangeFlow = 0, sellPressurePercent = Num 0,
       quickSellers = 0, holders = 0, averageTimeToExchange = 0 \<rparr>"
  "rewardsByAddress (details (initialAnalysis now)) = []"
  "transfersByAddress (details (initialAnalysis now)) = []"
  "exchangeFlowsByAddress (details (initialAnalysis now)) = []"
  "hourlyRewards (trends (initialAnalysis now)) = Map.empty"
  "hourlyExchangeFlows (trends (initialAnalysis now)) = Map.empty"
  by (simp_all add: initialAnalysis_def)


lemma run_exchangeFlow:
  "exchangeFlow (summary (analyzeFlows this tz now rs ts fs rcv)) =
     sum_list (map amount (filter isDeposit fs))"
  by (simp add: analyzeFlows_def Let_def gt_fields ip_fields csp_fields flows_loop_fields
      floop_exchangeFlow transfers_summary rewards_summary initial_fields)

lemma run_sellPressure:
  "sellPressurePercent (summary (analyzeFlows this tz now rs ts fs rcv)) =
     (if sum_list (map amount rs) > 0
      then jsTimes (jsDivide (sum_list (map amount (filter isDeposit fs)))
                             (sum_list (map amount rs))) 100
      else Num 0)"
  by (simp add: analyzeFlows_def Let_def gt_fields ip_fields csp_sellPressure flows_loop_fields
      floop_other floop_exchangeFlow transfers_summary rewards_summary initial_fields)

lemma run_reward_keys:
  "fst ` set (rewardsByAddress (details (analyzeFlows this tz now rs ts fs rcv))) = address ` set rs"
  by (simp add: analyzeFlows_def Let_def gt_fields ip_fields csp_fields flows_loop_fields
      floop_other transfers_other rewards_keys initial_fields)

lemma run_exchange_keys:
  "fst ` set (exchangeFlowsByAddress (details (analyzeFlows this tz now rs ts fs rcv))) =
     from_addr ` set (filter isDeposit fs)"
  by (simp add: analyzeFlows_def Let_def gt_fields ip_fields csp_fields flows_loop_fields
      floop_keys transfers_other rewards_other initial_fields)

lemma run_holders:
  "holders (summary (analyzeFlows this tz now rs ts fs rcv)) =
     card (address ` set rs - from_addr ` set (filter isDeposit fs))"
  by (simp add: analyzeFlows_def Let_def gt_fields ip_fields csp_holders flows_loop_fields
      floop_other floop_keys transfers_other transfers_summary rewards_other rewards_keys
      rewards_summary initial_fields)

lemma run_rewardsAt:
  "rewardsAt (analyzeTransfers ts (analyzeRewards tz rs (initialAnalysis now))) k = rewardsOf rs k"
proof -
  have "rewardsAt (analyzeTransfers ts (analyzeRewards tz rs (initialAnalysis now))) k =
        rewardsAt (analyzeRewards tz rs (initialAnalysis now)) k"
    by (simp add: rewardsAt_def transfers_other)
  also have "\<dots> = rewardsOf rs k"
    by (simp add: rewards_rewardsAt rewardsOf_def) (simp add: rewardsAt_def initial_fields)
  finally show ?thesis .
qed

lemma run_timeDiffOf:
  "timeDiffOf (analyzeTransfers ts (analyzeRewards tz rs (initialAnalysis now))) = timeDiffIn rs"
  by (rule ext) (simp add: timeDiffOf_def timeDiffIn_def run_rewardsAt)

lemma run_timeToExchange:
  "timeToExchangeOf this tz now rs ts fs = concat (map (timeDiffIn rs) fs)"
  by (simp add: timeToExchangeOf_def floop_tte run_timeDiffOf)

lemma run_quickSellers:
  "quickSellers (summary (analyzeFlows this tz now rs ts fs rcv)) =
     length (filter (\<lambda>d. d < rapidSellThreshold this) (concat (map (timeDiffIn rs) fs)))"
  by (simp add: analyzeFlows_def Let_def gt_fields ip_fields csp_fields flows_loop_fields
      floop_quickSellers run_timeDiffOf transfers_summary rewards_summary initial_fields)

lemma run_average:
  "averageTimeToExchange (summary (analyzeFlows this tz now rs ts fs rcv)) =
     (let tte = timeToExchangeOf this tz now rs ts fs
      in if tte = [] then 0 else real_of_int (sum_list tte) / real (length tte) / 3600)"
  by (simp add: analyzeFlows_def Let_def gt_fields ip_fields csp_fields flows_average
      timeToExchangeOf_def transfers_summary rewards_summary initial_fields)

lemma run_transferTotal:
  "transferTotalAt (analyzeFlows this tz now rs ts fs rcv) k =
     sum_list (map amount (filter (\<lambda>t. from_addr t = k) ts))"
proof -
  have "transferTotalAt (analyzeFlows this tz now rs ts fs rcv) k =
        transferTotalAt (analyzeTransfers ts (analyzeRewards tz rs (initialAnalysis now))) k"
    by (simp add: transferTotalAt_def analyzeFlows_def Let_def gt_fields ip_fields csp_fields
        flows_loop_fields floop_other)
  also have "\<dots> = sum_list (map amount (filter (\<lambda>t. from_addr t = k) ts))"
    by (simp add: transfers_total) (simp add: transferTotalAt_def rewards_other initial_fields)
  finally show ?thesis .
qed

lemma run_exchangeTotal:
  "exchangeTotalAt (analyzeFlows this tz now rs ts fs rcv) k =
     sum_list (map amount (filter (\<lambda>f. isDeposit f \<and> from_addr f = k) fs))"
proof -
  have "exchangeTotalAt (analyzeFlows this tz now rs ts fs rcv) k =
        exchangeTotalAt (fst (analyzeExchangeFlows_loop this tz fs
           (analyzeTransfers ts (analyzeRewards tz rs (initialAnalysis now)), []))) k"
    by (simp add: exchangeTotalAt_def analyzeFlows_def Let_def gt_fields ip_fields csp_fields
        flows_loop_fields)
  also have "\<dots> = sum_list (map amount (filter (\<lambda>f. isDeposit f \<and> from_addr f = k) fs))"
    by (simp add: floop_total)
       (simp add: exchangeTotalAt_def transfers_other rewards_other initial_fields)
  finally show ?thesis .
qed

section \<open>Double rounding\<close>


lemma roundHalfEven_int: "roundHalfEven (of_int n) = n"
  by (simp add: roundHalfEven_def)















section \<open>The quick-seller flag\<close>

lemma fstep_quickSell:
  "quickSellAt (fst (analyzeExchangeFlows_step this tz f st)) k =
     (quickSellAt (fst st) k
      \<or> (from_addr f = k \<and> (\<exists>d \<in> set (timeDiffOf (fst st) f). d < rapidSellThreshold this)))"
  by (cases st)
     (auto simp add: analyzeExchangeFlows_step_def Let_def isDeposit_def timeDiffOf_def
        rewardsAt_def quickSellAt_def update_conv' split: option.splits)

lemma floop_quickSell:
  "quickSellAt (fst (analyzeExchangeFlows_loop this tz fs st)) k =
     (quickSellAt (fst st) k
      \<or> (\<exists>f \<in> set fs. from_addr f = k
              \<and> (\<exists>d \<in> set (timeDiffOf (fst st) f). d < rapidSellThreshold this)))"
proof (induction fs arbitrary: st)
  case Nil
  then show ?case by simp
next
  case (Cons f fs)
  have "timeDiffOf (fst (analyzeExchangeFlows_step this tz f st)) = timeDiffOf (fst st)"
    by (rule timeDiffOf_cong) (simp add: fstep_other)
  then show ?case by (auto simp add: Cons.IH fstep_quickSell)
qed

lemma run_quickSell:
  "quickSellAt (analyzeFlows this tz now rs ts fs rcv) k =
     (\<exists>f \<in> set fs. from_addr f = k
         \<and> (\<exists>d \<in> set (timeDiffIn rs f). d < rapidSellThreshold this))"
proof -
  have "quickSellAt (analyzeFlows this tz now rs ts fs rcv) k =
        quickSellAt (fst (analyzeExchangeFlows_loop this tz fs
           (analyzeTransfers ts (analyzeRewards tz rs (initialAnalysis now)), []))) k"
    by (simp add: quickSellAt_def analyzeFlows_def Let_def gt_fields ip_fields csp_fields
        flows_loop_fields)
  also have "\<dots> = (\<exists>f \<in> set fs. from_addr f = k
         \<and> (\<exists>d \<in> set (timeDiffIn rs f). d < rapidSellThreshold this))"
    by (simp add: floop_quickSell run_timeDiffOf)
       (simp add: quickSellAt_def transfers_other rewards_other initial_fields)
  finally show ?thesis .
qed

section \<open>Claims about the summary statistics\<close>

lemma example_sel:
  "amount (mkReward a amt ts) = amt"
  "timestamp (mkReward a amt ts) = ts"
  "address (mkReward a amt ts) = a"
  "amount (mkDeposit f amt ts) = amt"
  "timestamp (mkDeposit f amt ts) = ts"
  "from_addr (mkDeposit f amt ts) = f"
  "isDeposit (mkDeposit f amt ts)"
  "name (exchange (mkDeposit f amt ts)) = ''Binance''"
  by (simp_all add: mkReward_def mkDeposit_def mkFlow_sel mkTransfer_sel isDeposit_def binance_def)

text \<open>
  Claim C2 says that the quick-seller counter goes up at most once per address, so that it never
  exceeds the number of distinct addresses with an exchange deposit. The code increments
  \<open>summary.quickSellers\<close> inside the loop over the flows, once for every deposit whose time
  difference is below the threshold: with one reward for address A at time 0 and two deposits
  of A at times 100 and 200, the counter ends at 2 while a single address has deposits.
\<close>

theorem quickSellers_counts_flows:
  "quickSellers (summary (analyzeFlows defaultFlowAnalyzer utc 0 [mkReward ''A'' 100 0] []
      [mkDeposit ''A'' 10 100, mkDeposit ''A'' 10 200] ())) = 2
   \<and> card (from_addr ` set (filter isDeposit [mkDeposit ''A'' 10 100, mkDeposit ''A'' 10 200])) = 1"
  by (simp add: run_quickSellers timeDiffIn_def rewardsOf_def example_sel defaultFlowAnalyzer_def)

text \<open>
  What the exchange-flow pass records in general: the list \<open>timeToExchange\<close> holds, for every
  deposit whose sender has a reward, the flow's timestamp minus the timestamp of the sender's
  last reward in input order, and the quick-seller counter is the number of its entries below
  the threshold; every deposit adds its amount to \<open>summary.exchangeFlow\<close> and to its sender's
  total.
\<close>

lemma timeToExchange_last_reward:
  "timeToExchangeOf this tz now rs ts fs = concat (map (timeDiffIn rs) fs)
   \<and> quickSellers (summary (analyzeFlows this tz now rs ts fs rcv)) =
       length (filter (\<lambda>d. d < rapidSellThreshold this) (timeToExchangeOf this tz now rs ts fs))
   \<and> exchangeFlow (summary (analyzeFlows this tz now rs ts fs rcv)) =
       sum_list (map amount (filter isDeposit fs))
   \<and> exchangeTotalAt (analyzeFlows this tz now rs ts fs rcv) k =
       sum_list (map amount (filter (\<lambda>f. isDeposit f \<and> from_addr f = k) fs))"
  by (simp add: run_timeToExchange run_quickSellers run_exchangeFlow run_exchangeTotal)

text \<open>
  Claim C3 says that a deposit is compared with the sender's most recent reward strictly
  before it, and that a deposit without such a reward adds nothing to the quick-seller flag or
  to the time-to-exchange list, so that every recorded time difference is positive. The code
  takes the last element of the rewards recorded for the address and compares no timestamps:
  for a deposit of A at time 500 whose only reward comes later, at time 1000, it records the
  time difference -500, sets the quick-seller flag of A and counts a quick sale. The program's
  own texts read the counter as addresses that \<open>moved rewards to exchanges within 1 hour\<close>
  (\<open>identifyPatterns\<close>) and that \<open>sell within 1 hour of receiving rewards\<close>; a deposit made
  before the reward is neither.
\<close>

theorem later_reward_quick_sale:
  "\<not> timestamp (mkReward ''A'' 100 1000) < timestamp (mkDeposit ''A'' 10 500)
   \<and> timeToExchangeOf defaultFlowAnalyzer utc 0 [mkReward ''A'' 100 1000] []
        [mkDeposit ''A'' 10 500] = [- 500]
   \<and> quickSellAt (analyzeFlows defaultFlowAnalyzer utc 0 [mkReward ''A'' 100 1000] []
        [mkDeposit ''A'' 10 500] ()) ''A''
   \<and> quickSellers (summary (analyzeFlows defaultFlowAnalyzer utc 0 [mkReward ''A'' 100 1000] []
        [mkDeposit ''A'' 10 500] ())) = 1
   \<and> exchangeTotalAt (analyzeFlows defaultFlowAnalyzer utc 0 [mkReward ''A'' 100 1000] []
        [mkDeposit ''A'' 10 500] ()) ''A'' = 10"
  by (simp add: run_timeToExchange run_quickSellers run_quickSell run_exchangeTotal timeDiffIn_def
      rewardsOf_def example_sel defaultFlowAnalyzer_def)

text \<open>
  The same lookup with two rewards of A in the input order 3000, 0 and a deposit at 4000: the
  most recent reward before the deposit is the one at 3000, 1000 seconds earlier and within
  the threshold, but the code compares with the one at 0, records 4000 and sets no flag.
\<close>

lemma older_reward_last:
  "timeToExchangeOf defaultFlowAnalyzer utc 0 [mkReward ''A'' 100 3000, mkReward ''A'' 100 0] []
     [mkDeposit ''A'' 10 4000] = [4000]
   \<and> \<not> quickSellAt (analyzeFlows defaultFlowAnalyzer utc 0
          [mkReward ''A'' 100 3000, mkReward ''A'' 100 0] [] [mkDeposit ''A'' 10 4000] ()) ''A''"
  by (simp add: run_timeToExchange run_quickSell timeDiffIn_def rewardsOf_def example_sel
      defaultFlowAnalyzer_def)





text \<open>
  Claim C5. The keys of \<open>rewardsByAddress\<close> are the addresses of the rewards and the keys of
  \<open>exchangeFlowsByAddress\<close> are the senders of the deposits; \<open>summary.holders\<close> is the number
  of reward addresses that are not deposit senders, whatever the amounts; and the holders
  together with the reward addresses that have a deposit make up the reward addresses, each
  counted once.
\<close>

theorem holders_partition:
  "holders (summary (analyzeFlows this tz now rs ts fs rcv)) =
     card (fst ` set (rewardsByAddress (details (analyzeFlows this tz now rs ts fs rcv)))
           - fst ` set (exchangeFlowsByAddress (details (analyzeFlows this tz now rs ts fs rcv))))
   \<and> fst ` set (rewardsByAddress (details (analyzeFlows this tz now rs ts fs rcv))) = address ` set rs
   \<and> fst ` set (exchangeFlowsByAddress (details (analyzeFlows this tz now rs ts fs rcv))) =
       from_addr ` set (filter isDeposit fs)
   \<and> card (address ` set rs) =
       holders (summary (analyzeFlows this tz now rs ts fs rcv))
       + card (address ` set rs \<inter> from_addr ` set (filter isDeposit fs))"
proof -
  let ?R = "address ` set rs" and ?E = "from_addr ` set (filter isDeposit fs)"
  have "card ?R = card (?R - ?E) + card (?R \<inter> ?E)"
  proof -
    have "?R = (?R - ?E) \<union> (?R \<inter> ?E)" by blast
    moreover have "(?R - ?E) \<inter> (?R \<inter> ?E) = {}" by blast
    moreover have "finite (?R - ?E)" "finite (?R \<inter> ?E)" by simp_all
    ultimately show ?thesis by (metis card_Un_disjoint)
  qed
  then show ?thesis
    by (simp add: run_holders run_reward_keys run_exchange_keys)
qed

section \<open>Exchange deposits against outgoing transfers\<close>

lemma detect_deposits_from:
  "sum_list (map amount (filter (\<lambda>f. isDeposit f \<and> from_addr f = k) (detectExchangeTransfers ebA ts)))
   = sum_list (map amount (filter (\<lambda>t. from_addr t = k \<and> ebA (to_addr t) \<noteq> None) ts))"
proof (induction ts)
  case Nil
  then show ?case by (simp add: detect_concat)
next
  case (Cons t ts)
  have one: "sum_list (map amount (filter (\<lambda>f. isDeposit f \<and> from_addr f = k) (detectOne ebA t)))
             = (if from_addr t = k \<and> ebA (to_addr t) \<noteq> None then amount t else 0)"
    by (simp add: detectOne_def getExchangeInfo_def isDeposit_def mkFlow_sel split: option.splits)
  from Cons one show ?case by (auto simp add: detect_concat)
qed

lemma sum_filter_mono:
  "\<forall>x \<in> set xs. P x \<longrightarrow> 0 \<le> amount x \<Longrightarrow>
   sum_list (map amount (filter (\<lambda>t. P t \<and> Q t) xs)) \<le> sum_list (map amount (filter P xs))"
  by (induction xs) (auto intro: add_increasing)

text \<open>
  Claim C9, as the code has it. When the exchange flows are those that
  \<open>detectExchangeTransfers\<close> derives from the transfer list, the total that
  \<open>exchangeFlowsByAddress\<close> holds for an address is the sum of the amounts of its transfers to
  registered exchange addresses, and the total that \<open>transfersByAddress\<close> holds for it is the sum
  of the amounts of all its transfers (0 for an address without an entry). So the first is at
  most the second when none of the address's transfers has a negative amount; nothing in the
  code checks the sign of an amount.
\<close>

theorem exchange_total_le_transfer_total:
  "exchangeTotalAt (analyzeFlows this tz now rs ts (detectExchangeTransfers ebA ts) rcv) k =
     sum_list (map amount (filter (\<lambda>t. from_addr t = k \<and> ebA (to_addr t) \<noteq> None) ts))
   \<and> transferTotalAt (analyzeFlows this tz now rs ts (detectExchangeTransfers ebA ts) rcv) k =
       sum_list (map amount (filter (\<lambda>t. from_addr t = k) ts))
   \<and> ((\<forall>t \<in> set ts. from_addr t = k \<longrightarrow> 0 \<le> amount t) \<longrightarrow>
        exchangeTotalAt (analyzeFlows this tz now rs ts (detectExchangeTransfers ebA ts) rcv) k
        \<le> transferTotalAt (analyzeFlows this tz now rs ts (detectExchangeTransfers ebA ts) rcv) k)"
  using sum_filter_mono [of ts "\<lambda>t. from_addr t = k" "\<lambda>t. ebA (to_addr t) \<noteq> None"]
  by (simp add: run_exchangeTotal run_transferTotal detect_deposits_from)

lemma registry_sel:
  "registry ''X'' = Some binance" "registry ''Y'' = Some kraken" "registry ''Z'' = None"
  "registry ''A'' = None"
  by (simp_all add: registry_def)

theorem exchange_total_le_transfer_total_witness:
  "0 \<le> amount (mkTransfer ''A'' ''X'' 30 0) \<and> 0 \<le> amount (mkTransfer ''A'' ''Z'' 20 0)
   \<and> exchangeTotalAt (analyzeFlows defaultFlowAnalyzer utc 0 []
        [mkTransfer ''A'' ''X'' 30 0, mkTransfer ''A'' ''Z'' 20 0]
        (detectExchangeTransfers registry [mkTransfer ''A'' ''X'' 30 0, mkTransfer ''A'' ''Z'' 20 0])
        ()) ''A'' = 30
   \<and> transferTotalAt (analyzeFlows defaultFlowAnalyzer utc 0 []
        [mkTransfer ''A'' ''X'' 30 0, mkTransfer ''A'' ''Z'' 20 0]
        (detectExchangeTransfers registry [mkTransfer ''A'' ''X'' 30 0, mkTransfer ''A'' ''Z'' 20 0])
        ()) ''A'' = 50
   \<and> exchangeTotalAt (analyzeFlows defaultFlowAnalyzer utc 0 []
        [mkTransfer ''A'' ''X'' 30 0, mkTransfer ''A'' ''Z'' 20 0]
        (detectExchangeTransfers registry [mkTransfer ''A'' ''X'' 30 0, mkTransfer ''A'' ''Z'' 20 0])
        ()) ''A''
     \<le> transferTotalAt (analyzeFlows defaultFlowAnalyzer utc 0 []
        [mkTransfer ''A'' ''X'' 30 0, mkTransfer ''A'' ''Z'' 20 0]
        (detectExchangeTransfers registry [mkTransfer ''A'' ''X'' 30 0, mkTransfer ''A'' ''Z'' 20 0])
        ()) ''A''"
  using exchange_total_le_transfer_total [of defaultFlowAnalyzer utc 0 "[]"
      "[mkTransfer ''A'' ''X'' 30 0, mkTransfer ''A'' ''Z'' 20 0]" registry "()" "''A''"]
  by (simp add: mkTransfer_sel registry_sel)

text \<open>
  Claim C9, as stated, fails: with a transfer of 30 from A to the exchange address X and a
  transfer of -20 from A to Z, the exchange total of A is 30 and its transfer total is 10.
\<close>

theorem negative_transfer_counterexample:
  "exchangeTotalAt (analyzeFlows defaultFlowAnalyzer utc 0 []
        [mkTransfer ''A'' ''X'' 30 0, mkTransfer ''A'' ''Z'' (- 20) 0]
        (detectExchangeTransfers registry
           [mkTransfer ''A'' ''X'' 30 0, mkTransfer ''A'' ''Z'' (- 20) 0])
        ()) ''A'' = 30
   \<and> transferTotalAt (analyzeFlows defaultFlowAnalyzer utc 0 []
        [mkTransfer ''A'' ''X'' 30 0, mkTransfer ''A'' ''Z'' (- 20) 0]
        (detectExchangeTransfers registry
           [mkTransfer ''A'' ''X'' 30 0, mkTransfer ''A'' ''Z'' (- 20) 0])
        ()) ''A'' = 10
   \<and> \<not> exchangeTotalAt (analyzeFlows defaultFlowAnalyzer utc 0 []
        [mkTransfer ''A'' ''X'' 30 0, mkTransfer ''A'' ''Z'' (- 20) 0]
        (detectExchangeTransfers registry
           [mkTransfer ''A'' ''X'' 30 0, mkTransfer ''A'' ''Z'' (- 20) 0])
        ()) ''A''
     \<le> transferTotalAt (analyzeFlows defaultFlowAnalyzer utc 0 []
        [mkTransfer ''A'' ''X'' 30 0, mkTransfer ''A'' ''Z'' (- 20) 0]
        (detectExchangeTransfers registry
           [mkTransfer ''A'' ''X'' 30 0, mkTransfer ''A'' ''Z'' (- 20) 0])
        ()) ''A''"
  by (simp add: run_exchangeTotal run_transferTotal detect_deposits_from mkTransfer_sel
      registry_sel)

section \<open>The clock\<close>

lemma restamp_fields:
  "summary (restamp t p a) = summary a"
  "details (restamp t p a) = details a"
  "trends (restamp t p a) = trends a"
  "analysis_timestamp (restamp t p a) = t"
  "period (restamp t p a) = p"
  by (simp_all add: restamp_def)

lemma restamp_restamp: "restamp t p (restamp t' p' a) = restamp t p a"
  by (simp add: restamp_def)

lemma restamp_initial:
  "initialAnalysis now =
     restamp now \<lparr> period_start = now - 86400, period_end = now \<rparr> (initialAnalysis now')"
  by (simp add: restamp_def initialAnalysis_def)

lemma rstep_restamp:
  "analyzeRewards_step tz r (restamp t p a) = restamp t p (analyzeRewards_step tz r a)"
  by (simp add: analyzeRewards_step_def restamp_def Let_def)

lemma rewards_restamp:
  "analyzeRewards tz rs (restamp t p a) = restamp t p (analyzeRewards tz rs a)"
  by (induction rs arbitrary: a) (simp_all add: rstep_restamp)

lemma tstep_restamp:
  "analyzeTransfers_step x (restamp t p a) = restamp t p (analyzeTransfers_step x a)"
  by (simp add: analyzeTransfers_step_def restamp_def Let_def)

lemma transfers_restamp:
  "analyzeTransfers ts (restamp t p a) = restamp t p (analyzeTransfers ts a)"
  by (induction ts arbitrary: a) (simp_all add: tstep_restamp)

lemma fstep_restamp:
  "analyzeExchangeFlows_step this tz f (restamp t p a, tte) =
     (restamp t p (fst (analyzeExchangeFlows_step this tz f (a, tte))),
      snd (analyzeExchangeFlows_step this tz f (a, tte)))"
  by (simp add: analyzeExchangeFlows_step_def restamp_def Let_def split: option.splits)

lemma floop_restamp:
  "analyzeExchangeFlows_loop this tz fs (restamp t p a, tte) =
     (restamp t p (fst (analyzeExchangeFlows_loop this tz fs (a, tte))),
      snd (analyzeExchangeFlows_loop this tz fs (a, tte)))"
proof (induction fs arbitrary: a tte)
  case Nil
  then show ?case by simp
next
  case (Cons f fs)
  obtain a' tte' where s: "analyzeExchangeFlows_step this tz f (a, tte) = (a', tte')"
    by (cases "analyzeExchangeFlows_step this tz f (a, tte)")
  from Cons [of a' tte'] s show ?case by (simp add: fstep_restamp)
qed

lemma flows_restamp:
  "analyzeExchangeFlows this tz fs (restamp t p a) = restamp t p (analyzeExchangeFlows this tz fs a)"
  by (cases "analyzeExchangeFlows_loop this tz fs (a, [])")
     (simp add: analyzeExchangeFlows_def floop_restamp Let_def, simp add: restamp_def)

lemma csp_restamp:
  "calculateSellPressure (restamp t p a) = restamp t p (calculateSellPressure a)"
  by (simp add: calculateSellPressure_def restamp_def Let_def)

lemma ip_restamp:
  "identifyPatterns this tz (restamp t p a) rcv = restamp t p (identifyPatterns this tz a rcv)"
  by (simp add: identifyPatterns_def coordinatedPatterns_def pressurePattern_def rapidPattern_def
      restamp_def Let_def)

lemma gt_restamp:
  "generateTrends (restamp t p a) = restamp t p (generateTrends a)"
  by (simp add: generateTrends_def restamp_def del: generateTrends_loop.simps)

lemma run_restamp:
  "analyzeFlows this tz now rs ts fs rcv =
     restamp now \<lparr> period_start = now - 86400, period_end = now \<rparr>
       (analyzeFlows this tz now' rs ts fs rcv)"
  unfolding analyzeFlows_def Let_def
  by (subst restamp_initial [of now now'])
     (simp only: rewards_restamp transfers_restamp flows_restamp csp_restamp ip_restamp gt_restamp)

lemma run_timestamp:
  "analysis_timestamp (analyzeFlows this tz now rs ts fs rcv) = now"
  by (subst run_restamp [of _ _ _ _ _ _ _ now]) (simp add: restamp_fields)

text \<open>
  Claim C1, as the code has it. \<open>analyzeFlows\<close> reads the clock: the result's \<open>timestamp\<close> and
  \<open>period.end\<close> are the second it read and \<open>period.start\<close> is 86400 seconds earlier. Everything
  else in the result (summary, details, trends) is the same whatever the clock says, for the same
  four inputs, the same two thresholds and the same time zone. So two invocations on the same
  input return the same result exactly when they read the same clock second.
\<close>

theorem analyzeFlows_clock:
  "analyzeFlows this tz now rs ts fs rcv =
     (analyzeFlows this tz now' rs ts fs rcv)
       \<lparr> analysis_timestamp := now,
         period := \<lparr> period_start = now - 86400, period_end = now \<rparr> \<rparr>
   \<and> summary (analyzeFlows this tz now rs ts fs rcv) = summary (analyzeFlows this tz now' rs ts fs rcv)
   \<and> details (analyzeFlows this tz now rs ts fs rcv) = details (analyzeFlows this tz now' rs ts fs rcv)
   \<and> trends (analyzeFlows this tz now rs ts fs rcv) = trends (analyzeFlows this tz now' rs ts fs rcv)
   \<and> analysis_timestamp (analyzeFlows this tz now rs ts fs rcv) = now
   \<and> period (analyzeFlows this tz now rs ts fs rcv) =
       \<lparr> period_start = now - 86400, period_end = now \<rparr>
   \<and> ((analyzeFlows this tz now rs ts fs rcv = analyzeFlows this tz now' rs ts fs rcv)
        = (now = now'))"
proof -
  have r: "analyzeFlows this tz now rs ts fs rcv =
     restamp now \<lparr> period_start = now - 86400, period_end = now \<rparr>
       (analyzeFlows this tz now' rs ts fs rcv)"
    by (rule run_restamp)
  have "now = now'" if "analyzeFlows this tz now rs ts fs rcv = analyzeFlows this tz now' rs ts fs rcv"
  proof -
    from that have "analysis_timestamp (analyzeFlows this tz now rs ts fs rcv)
                  = analysis_timestamp (analyzeFlows this tz now' rs ts fs rcv)"
      by (rule arg_cong)
    then show ?thesis by (simp only: run_timestamp)
  qed
  then have "(analyzeFlows this tz now rs ts fs rcv = analyzeFlows this tz now' rs ts fs rcv)
        = (now = now')"
    by blast
  moreover have "analyzeFlows this tz now rs ts fs rcv =
     (analyzeFlows this tz now' rs ts fs rcv)
       \<lparr> analysis_timestamp := now,
         period := \<lparr> period_start = now - 86400, period_end = now \<rparr> \<rparr>"
    using r by (simp add: restamp_def)
  moreover have "summary (analyzeFlows this tz now rs ts fs rcv) = summary (analyzeFlows this tz now' rs ts fs rcv)"
    "details (analyzeFlows this tz now rs ts fs rcv) = details (analyzeFlows this tz now' rs ts fs rcv)"
    "trends (analyzeFlows this tz now rs ts fs rcv) = trends (analyzeFlows this tz now' rs ts fs rcv)"
    "analysis_timestamp (analyzeFlows this tz now rs ts fs rcv) = now"
    "period (analyzeFlows this tz now rs ts fs rcv) = \<lparr> period_start = now - 86400, period_end = now \<rparr>"
    by (simp_all only: r restamp_fields)
  ultimately show ?thesis by blast
qed

text \<open>
  Claim C1, as stated, fails: two invocations on the same (empty) input, one second apart,
  return different results.
\<close>

theorem clock_counterexample:
  "analyzeFlows defaultFlowAnalyzer utc 0 [] [] [] () \<noteq> analyzeFlows defaultFlowAnalyzer utc 1 [] [] [] ()"
proof
  assume "analyzeFlows defaultFlowAnalyzer utc 0 [] [] [] () = analyzeFlows defaultFlowAnalyzer utc 1 [] [] [] ()"
  then have "analysis_timestamp (analyzeFlows defaultFlowAnalyzer utc 0 [] [] [] ())
           = analysis_timestamp (analyzeFlows defaultFlowAnalyzer utc 1 [] [] [] ())"
    by simp
  then show False by (simp add: run_timestamp)
qed

section \<open>Pattern detection\<close>

lemma run_patterns:
  "suspiciousPatterns (details (analyzeFlows this tz now rs ts fs rcv)) =
     coordinatedPatterns this tz (analyzeFlows this tz now rs ts fs rcv)
     @ pressurePattern (analyzeFlows this tz now rs ts fs rcv)
     @ rapidPattern (analyzeFlows this tz now rs ts fs rcv)"
  by (simp add: analyzeFlows_def Let_def gt_fields identifyPatterns_def coordinatedPatterns_def
      pressurePattern_def rapidPattern_def)

lemma run_efba:
  "exchangeFlowsByAddress (details (analyzeFlows this tz now rs ts fs rcv)) =
     exchangeFlowsByAddress (details (fst (analyzeExchangeFlows_loop this tz fs
        (analyzeTransfers ts (analyzeRewards tz rs (initialAnalysis now)), []))))"
  by (simp add: analyzeFlows_def Let_def gt_fields ip_fields csp_fields flows_loop_fields)

lemma getHours_utc_small:
  "getHours utc 100 = Hour 0" "getHours utc 200 = Hour 0" "getHours utc 300 = Hour 0"
  by (simp_all add: getHours_def utc_def)

lemma three_A:
  "exchangeFlowsByAddress (details (fst (analyzeExchangeFlows_loop defaultFlowAnalyzer utc
      [mkDeposit ''A'' 15000 100, mkDeposit ''A'' 15000 200, mkDeposit ''A'' 15000 300]
      (analyzeTransfers [] (analyzeRewards utc [] (initialAnalysis 0)), [])))) =
   [(''A'', \<lparr> total = 45000, count = 3,
       flows = [mkDeposit ''A'' 15000 100, mkDeposit ''A'' 15000 200, mkDeposit ''A'' 15000 300],
       quickSell = False \<rparr>)]"
  by (simp add: analyzeExchangeFlows_step_def Let_def initialAnalysis_def example_sel
      isDeposit_def [symmetric] getHours_utc_small)


lemma three_ABC:
  "exchangeFlowsByAddress (details (fst (analyzeExchangeFlows_loop defaultFlowAnalyzer utc
      [mkDeposit ''A'' 15000 100, mkDeposit ''B'' 15000 200, mkDeposit ''C'' 15000 300]
      (analyzeTransfers [] (analyzeRewards utc [] (initialAnalysis 0)), [])))) =
   [(''A'', \<lparr> total = 15000, count = 1, flows = [mkDeposit ''A'' 15000 100], quickSell = False \<rparr>),
    (''B'', \<lparr> total = 15000, count = 1, flows = [mkDeposit ''B'' 15000 200], quickSell = False \<rparr>),
    (''C'', \<lparr> total = 15000, count = 1, flows = [mkDeposit ''C'' 15000 300], quickSell = False \<rparr>)]"
  by (simp add: analyzeExchangeFlows_step_def Let_def initialAnalysis_def example_sel
      isDeposit_def [symmetric] getHours_utc_small)

text \<open>
  Claim C6 says that a coordinated-selling pattern is emitted for an hour exactly when at least
  three distinct addresses have a large deposit in it. The code tests \<open>sellers.length >= 3\<close>
  on the entries grouped under the hour, one entry per large deposit flow: three deposits of
  15000 by the single address A in one hour give the pattern, with A listed three times.
\<close>

theorem coordinated_counts_flows:
  "suspiciousPatterns (details (analyzeFlows defaultFlowAnalyzer utc 0 [] []
      [mkDeposit ''A'' 15000 100, mkDeposit ''A'' 15000 200, mkDeposit ''A'' 15000 300] ())) =
     [\<lparr> ptype = ''coordinated_selling'', severity = ''high'',
        description = LargeSellersMoved 3 45000 (Hour 0),
        pdetails = SellerDetails
          [\<lparr> ls_address = ''A'', ls_amount = 15000, ls_exchange = ''Binance'' \<rparr>,
           \<lparr> ls_address = ''A'', ls_amount = 15000, ls_exchange = ''Binance'' \<rparr>,
           \<lparr> ls_address = ''A'', ls_amount = 15000, ls_exchange = ''Binance'' \<rparr>] \<rparr>]
   \<and> card (from_addr ` set
        [mkDeposit ''A'' 15000 100, mkDeposit ''A'' 15000 200, mkDeposit ''A'' 15000 300]) = 1"
proof -
  let ?R = "analyzeFlows defaultFlowAnalyzer utc 0 [] []
      [mkDeposit ''A'' 15000 100, mkDeposit ''A'' 15000 200, mkDeposit ''A'' 15000 300] ()"
  have e: "exchangeFlowsByAddress (details ?R) = exchangeFlowsByAddress (details (fst (analyzeExchangeFlows_loop defaultFlowAnalyzer utc
      [mkDeposit ''A'' 15000 100, mkDeposit ''A'' 15000 200, mkDeposit ''A'' 15000 300]
      (analyzeTransfers [] (analyzeRewards utc [] (initialAnalysis 0)), []))))"
    by (rule run_efba)
  have c: "coordinatedPatterns defaultFlowAnalyzer utc ?R =
     [\<lparr> ptype = ''coordinated_selling'', severity = ''high'',
        description = LargeSellersMoved 3 45000 (Hour 0),
        pdetails = SellerDetails
          [\<lparr> ls_address = ''A'', ls_amount = 15000, ls_exchange = ''Binance'' \<rparr>,
           \<lparr> ls_address = ''A'', ls_amount = 15000, ls_exchange = ''Binance'' \<rparr>,
           \<lparr> ls_address = ''A'', ls_amount = 15000, ls_exchange = ''Binance'' \<rparr>] \<rparr>]"
    unfolding coordinatedPatterns_def e three_A
    by (simp add: largeSellers_flow_def getHours_utc_small example_sel defaultFlowAnalyzer_def
        objectEntries_def hourKeys_def coordinatedPattern_def)
  have p: "pressurePattern ?R = []"
    by (simp add: pressurePattern_def run_sellPressure jsGreater_def)
  have q: "rapidPattern ?R = []"
    by (simp add: rapidPattern_def run_quickSellers timeDiffIn_def rewardsOf_def)
  have s: "suspiciousPatterns (details ?R) =
     [\<lparr> ptype = ''coordinated_selling'', severity = ''high'',
        description = LargeSellersMoved 3 45000 (Hour 0),
        pdetails = SellerDetails
          [\<lparr> ls_address = ''A'', ls_amount = 15000, ls_exchange = ''Binance'' \<rparr>,
           \<lparr> ls_address = ''A'', ls_amount = 15000, ls_exchange = ''Binance'' \<rparr>,
           \<lparr> ls_address = ''A'', ls_amount = 15000, ls_exchange = ''Binance'' \<rparr>] \<rparr>]"
    by (simp only: run_patterns c p q append_Nil2)
  show ?thesis
    by (simp only: s) (simp add: example_sel)
qed

text \<open>
  The scenario of the specification: three addresses, one deposit of 15000 each in the same hour,
  give exactly one pattern with three participants.
\<close>

lemma scenario_three_sellers:
  "suspiciousPatterns (details (analyzeFlows defaultFlowAnalyzer utc 0 [] []
      [mkDeposit ''A'' 15000 100, mkDeposit ''B'' 15000 200, mkDeposit ''C'' 15000 300] ())) =
     [\<lparr> ptype = ''coordinated_selling'', severity = ''high'',
        description = LargeSellersMoved 3 45000 (Hour 0),
        pdetails = SellerDetails
          [\<lparr> ls_address = ''A'', ls_amount = 15000, ls_exchange = ''Binance'' \<rparr>,
           \<lparr> ls_address = ''B'', ls_amount = 15000, ls_exchange = ''Binance'' \<rparr>,
           \<lparr> ls_address = ''C'', ls_amount = 15000, ls_exchange = ''Binance'' \<rparr>] \<rparr>]
   \<and> card (from_addr ` set
        [mkDeposit ''A'' 15000 100, mkDeposit ''B'' 15000 200, mkDeposit ''C'' 15000 300]) = 3"
proof -
  let ?R = "analyzeFlows defaultFlowAnalyzer utc 0 [] []
      [mkDeposit ''A'' 15000 100, mkDeposit ''B'' 15000 200, mkDeposit ''C'' 15000 300] ()"
  have e: "exchangeFlowsByAddress (details ?R) = exchangeFlowsByAddress (details (fst (analyzeExchangeFlows_loop defaultFlowAnalyzer utc
      [mkDeposit ''A'' 15000 100, mkDeposit ''B'' 15000 200, mkDeposit ''C'' 15000 300]
      (analyzeTransfers [] (analyzeRewards utc [] (initialAnalysis 0)), []))))"
    by (rule run_efba)
  have c: "coordinatedPatterns defaultFlowAnalyzer utc ?R =
     [\<lparr> ptype = ''coordinated_selling'', severity = ''high'',
        description = LargeSellersMoved 3 45000 (Hour 0),
        pdetails = SellerDetails
          [\<lparr> ls_address = ''A'', ls_amount = 15000, ls_exchange = ''Binance'' \<rparr>,
           \<lparr> ls_address = ''B'', ls_amount = 15000, ls_exchange = ''Binance'' \<rparr>,
           \<lparr> ls_address = ''C'', ls_amount = 15000, ls_exchange = ''Binance'' \<rparr>] \<rparr>]"
    unfolding coordinatedPatterns_def e three_ABC
    by (simp add: largeSellers_flow_def getHours_utc_small example_sel defaultFlowAnalyzer_def
        objectEntries_def hourKeys_def coordinatedPattern_def)
  have p: "pressurePattern ?R = []"
    by (simp add: pressurePattern_def run_sellPressure jsGreater_def)
  have q: "rapidPattern ?R = []"
    by (simp add: rapidPattern_def run_quickSellers timeDiffIn_def rewardsOf_def)
  have s: "suspiciousPatterns (details ?R) =
     [\<lparr> ptype = ''coordinated_selling'', severity = ''high'',
        description = LargeSellersMoved 3 45000 (Hour 0),
        pdetails = SellerDetails
          [\<lparr> ls_address = ''A'', ls_amount = 15000, ls_exchange = ''Binance'' \<rparr>,
           \<lparr> ls_address = ''B'', ls_amount = 15000, ls_exchange = ''Binance'' \<rparr>,
           \<lparr> ls_address = ''C'', ls_amount = 15000, ls_exchange = ''Binance'' \<rparr>] \<rparr>]"
    by (simp only: run_patterns c p q append_Nil2)
  show ?thesis
    by (simp only: s) (simp add: example_sel)
qed

section \<open>Hour buckets\<close>

lemma rstep_hourly:
  "hourlyRewards (trends (analyzeRewards_step tz r a)) =
     (hourlyRewards (trends a))
       (getHours tz (timestamp r) \<mapsto>
          orZero (hourlyRewards (trends a) (getHours tz (timestamp r))) + amount r)"
  by (simp add: analyzeRewards_step_def Let_def)

lemma rewards_hourly:
  "hourlyRewards (trends (analyzeRewards tz rs a)) h =
     (case bucket tz h rs of
        None \<Rightarrow> hourlyRewards (trends a) h
      | Some s \<Rightarrow> Some (orZero (hourlyRewards (trends a) h) + s))"
  by (induction rs arbitrary: a) (simp_all add: rstep_hourly bucket_def orZero_def)

lemma fstep_hourly:
  "hourlyExchangeFlows (trends (fst (analyzeExchangeFlows_step this tz f st))) =
     (if isDeposit f
      then (hourlyExchangeFlows (trends (fst st)))
             (getHours tz (timestamp f) \<mapsto>
                orZero (hourlyExchangeFlows (trends (fst st)) (getHours tz (timestamp f)))
                + amount f)
      else hourlyExchangeFlows (trends (fst st)))"
  by (cases st) (simp add: analyzeExchangeFlows_step_def Let_def isDeposit_def split: option.splits)

lemma floop_hourly:
  "hourlyExchangeFlows (trends (fst (analyzeExchangeFlows_loop this tz fs st))) h =
     (case bucket tz h (filter isDeposit fs) of
        None \<Rightarrow> hourlyExchangeFlows (trends (fst st)) h
      | Some s \<Rightarrow> Some (orZero (hourlyExchangeFlows (trends (fst st)) h) + s))"
  by (induction fs arbitrary: st) (simp_all add: fstep_hourly bucket_def orZero_def)

lemma run_hourlyRewards:
  "hourlyRewards (trends (analyzeFlows this tz now rs ts fs rcv)) h = bucket tz h rs"
  by (simp add: analyzeFlows_def Let_def gt_fields ip_fields csp_fields flows_loop_fields
      floop_other transfers_other rewards_hourly initial_fields orZero_def split: option.splits)

lemma run_hourlyExchangeFlows:
  "hourlyExchangeFlows (trends (analyzeFlows this tz now rs ts fs rcv)) h =
     bucket tz h (filter isDeposit fs)"
  by (simp add: analyzeFlows_def Let_def gt_fields ip_fields csp_fields flows_loop_fields
      floop_hourly transfers_other rewards_other initial_fields orZero_def split: option.splits)

lemma ls_flows:
  "largeSellers_flows this tz addr fs m h =
     (if largeEntries this tz h addr fs = []
      then m h
      else Some ((case m h of Some s \<Rightarrow> s | None \<Rightarrow> []) @ largeEntries this tz h addr fs))"
  by (induction fs arbitrary: m) (simp_all add: largeSellers_flow_def largeEntries_def Let_def)

lemma ls_byHour:
  "largeSellersByHour this tz entries m h =
     (if largeGroup this tz h entries = []
      then m h
      else Some ((case m h of Some s \<Rightarrow> s | None \<Rightarrow> []) @ largeGroup this tz h entries))"
proof (induction entries arbitrary: m)
  case Nil
  then show ?case by (simp add: largeGroup_def)
next
  case (Cons e entries)
  obtain addr fl where e: "e = (addr, fl)" by (cases e)
  have g: "largeGroup this tz h ((addr, fl) # entries) =
           largeEntries this tz h addr (flows fl) @ largeGroup this tz h entries"
    by (simp add: largeGroup_def)
  show ?case
    unfolding e by (simp add: Cons.IH ls_flows g)
qed


text \<open>
  Claim C7, as the code has it. The hour under which an amount is accumulated is
  \<open>getHours\<close> of the event's timestamp: bucket \<open>h\<close> of \<open>hourlyRewards\<close> is the sum of the rewards
  whose \<open>getHours\<close> is \<open>h\<close>, bucket \<open>h\<close> of \<open>hourlyExchangeFlows\<close> is that sum over the deposits,
  and group \<open>h\<close> of the coordinated-selling grouping holds the large flows whose \<open>getHours\<close> is
  \<open>h\<close> (a bucket with no event does not exist). None of them depends on the clock. For a
  timestamp within the range of \<open>Date\<close>, \<open>getHours\<close> is the hour of the day in the local time of
  the process, \<open>floor((t + offset) / 3600) mod 24\<close>; it is \<open>floor(t / 3600) mod 24\<close> when the
  process runs in UTC.
\<close>

theorem hour_bucket_local_time:
  "hourlyRewards (trends (analyzeFlows this tz now rs ts fs rcv)) h = bucket tz h rs
   \<and> hourlyExchangeFlows (trends (analyzeFlows this tz now rs ts fs rcv)) h =
       bucket tz h (filter isDeposit fs)
   \<and> largeSellersByHour this tz entries Map.empty h =
       (if largeGroup this tz h entries = [] then None else Some (largeGroup this tz h entries))
   \<and> (\<bar>t * 1000\<bar> \<le> 8640000000000000 \<longrightarrow>
        getHours tz t = Hour (((t + tz t) div 3600) mod 24)
        \<and> getHours utc t = Hour ((t div 3600) mod 24))"
  by (simp add: run_hourlyRewards run_hourlyExchangeFlows ls_byHour getHours_def utc_def)

theorem hour_bucket_local_time_witness:
  "\<bar>(0::int) * 1000\<bar> \<le> 8640000000000000
   \<and> getHours utcPlus1 0 = Hour 1
   \<and> getHours utc 0 = Hour 0
   \<and> hourlyRewards (trends (analyzeFlows defaultFlowAnalyzer utcPlus1 0 [mkReward ''A'' 5 0] [] [] ()))
        (Hour 1) = Some 5"
  using hour_bucket_local_time [of defaultFlowAnalyzer utcPlus1 0 "[mkReward ''A'' 5 0]" "[]" "[]" "()"
     "Hour 1" "[]" 0]
  by (simp add: bucket_def utcPlus1_def example_sel getHours_def)

text \<open>
  Claim C7, as stated, fails: in a process whose local time is one hour ahead of UTC, a reward
  at timestamp 0 is accumulated under hour 1, and the bucket \<open>floor(0 / 3600) mod 24 = 0\<close> does
  not exist.
\<close>

theorem local_hour_counterexample:
  "hourlyRewards (trends (analyzeFlows defaultFlowAnalyzer utcPlus1 0 [mkReward ''A'' 5 0] [] [] ()))
     (Hour ((timestamp (mkReward ''A'' 5 0) div 3600) mod 24)) = None
   \<and> hourlyRewards (trends (analyzeFlows defaultFlowAnalyzer utcPlus1 0 [mkReward ''A'' 5 0] [] [] ()))
        (Hour 1) = Some (amount (mkReward ''A'' 5 0))"
  by (simp add: run_hourlyRewards bucket_def utcPlus1_def example_sel getHours_def)

section \<open>Coordinated selling in general\<close>

lemma concat_map_filter:
  "concat (map f (List.map_filter g xs)) =
     concat (map (\<lambda>k. case g k of None \<Rightarrow> [] | Some y \<Rightarrow> f y) xs)"
  by (induction xs) (simp_all add: List.map_filter_def split: option.splits)

text \<open>
  What pattern 1 emits in general: for every hour key, in the order of the keys, one pattern
  when the group of the hour holds at least three entries, that is, at least three large
  deposit flows, whoever sent them.
\<close>

lemma coordinatedPatterns_groups:
  "coordinatedPatterns this tz a =
     concat (map (\<lambda>h. if 3 \<le> length (largeGroup this tz h (exchangeFlowsByAddress (details a)))
                      then [\<lparr> ptype = ''coordinated_selling'', severity = ''high'',
                              description = LargeSellersMoved
                                (length (largeGroup this tz h (exchangeFlowsByAddress (details a))))
                                (sum_list (map ls_amount
                                   (largeGroup this tz h (exchangeFlowsByAddress (details a))))) h,
                              pdetails = SellerDetails
                                (largeGroup this tz h (exchangeFlowsByAddress (details a))) \<rparr>]
                      else [])
                 hourKeys)"
  unfolding coordinatedPatterns_def objectEntries_def concat_map_filter
  by (rule arg_cong [where f = concat], rule map_cong [OF refl])
     (simp add: ls_byHour coordinatedPattern_def)

section \<open>Pagination of the transfer lookup\<close>

lemma ft_stop:
  "\<not> fullPage (mr (transfersRequest d a s e p)) \<Longrightarrow>
   fetchTransfers_loop mr d a s e p trs reqs =
     Some (trs @ map toTransfer (pageRows (mr (transfersRequest d a s e p))),
           reqs @ [transfersRequest d a s e p])"
  by (subst fetchTransfers_loop.simps)
     (simp add: fullPage_def pageRows_def split: response.splits option.splits)

lemma ft_cont:
  "fullPage (mr (transfersRequest d a s e p)) \<Longrightarrow>
   fetchTransfers_loop mr d a s e p trs reqs =
     fetchTransfers_loop mr d a s e (Suc p)
       (trs @ map toTransfer (pageRows (mr (transfersRequest d a s e p))))
       (reqs @ [transfersRequest d a s e p])"
  by (subst fetchTransfers_loop.simps)
     (auto simp add: fullPage_def pageRows_def rowsPerPage_def split: response.splits option.splits)

lemma ft_pages:
  "(\<forall>i<n. fullPage (mr (transfersRequest d a s e (p + i)))) \<Longrightarrow>
   \<not> fullPage (mr (transfersRequest d a s e (p + n))) \<Longrightarrow>
   fetchTransfers_loop mr d a s e p trs reqs =
     Some (trs @ concat (map (\<lambda>q. map toTransfer (pageRows (mr (transfersRequest d a s e q))))
                           [p..<p + Suc n]),
           reqs @ map (transfersRequest d a s e) [p..<p + Suc n])"
proof (induction n arbitrary: p trs reqs)
  case 0
  then show ?case by (simp add: ft_stop)
next
  case (Suc n)
  from Suc.prems(1) [rule_format, of 0]
  have full: "fullPage (mr (transfersRequest d a s e p))" by simp
  have later: "\<forall>i<n. fullPage (mr (transfersRequest d a s e (Suc p + i)))"
  proof (intro allI impI)
    fix i assume "i < n"
    then have "Suc i < Suc n" by simp
    from Suc.prems(1) [rule_format, OF this]
    show "fullPage (mr (transfersRequest d a s e (Suc p + i)))" by simp
  qed
  have last: "\<not> fullPage (mr (transfersRequest d a s e (Suc p + n)))"
    using Suc.prems(2) by simp
  have range: "[p..<p + Suc (Suc n)] = p # [Suc p..<Suc p + Suc n]"
    by (simp add: upt_conv_Cons)
  have step: "fetchTransfers_loop mr d a s e p trs reqs =
     fetchTransfers_loop mr d a s e (Suc p)
       (trs @ map toTransfer (pageRows (mr (transfersRequest d a s e p))))
       (reqs @ [transfersRequest d a s e p])"
    using full by (rule ft_cont)
  show ?case
    unfolding step range
    by (simp only: Suc.IH [OF later last]) simp
qed

lemma ft_never_aux:
  assumes "fetchTransfers_loop mr0 d0 a0 s0 e0 p0 trs0 reqs0 = Some y0"
  shows "\<exists>q. \<not> fullPage (mr0 (transfersRequest d0 a0 s0 e0 q))"
proof (rule fetchTransfers_loop.raw_induct
    [where P = "\<lambda>mr d a s e p trs reqs y. \<exists>q. \<not> fullPage (mr (transfersRequest d a s e q))",
     OF _ assms])
  fix rec :: "(request \<Rightarrow> rawTransfer response) \<Rightarrow> string \<Rightarrow> string \<Rightarrow> int \<Rightarrow> int
              \<Rightarrow> nat \<Rightarrow> transfer list \<Rightarrow> request list \<Rightarrow> (transfer list \<times> request list) option"
  fix mr d a s e p trs reqs y
  assume IH: "\<And>mr d a s e p trs reqs y. rec mr d a s e p trs reqs = Some y \<Longrightarrow>
                \<exists>q. \<not> fullPage (mr (transfersRequest d a s e q))"
  assume body:
    "(case mr (transfersRequest d a s e p) of
        Failed \<Rightarrow> Some (trs, reqs @ [transfersRequest d a s e p])
      | Data None \<Rightarrow> Some (trs, reqs @ [transfersRequest d a s e p])
      | Data (Some rows) \<Rightarrow>
          if length rows = 0 then Some (trs, reqs @ [transfersRequest d a s e p])
          else if length rows < rowsPerPage
          then Some (trs @ map toTransfer rows, reqs @ [transfersRequest d a s e p])
          else rec mr d a s e (p + 1)
                 (trs @ map toTransfer rows)
                 (reqs @ [transfersRequest d a s e p])) = Some y"
  show "\<exists>q. \<not> fullPage (mr (transfersRequest d a s e q))"
  proof (cases "fullPage (mr (transfersRequest d a s e p))")
    case True
    then obtain rows where r: "mr (transfersRequest d a s e p) = Data (Some rows)"
      and l: "rowsPerPage \<le> length rows"
      by (auto simp add: fullPage_def pageRows_def rowsPerPage_def
          split: response.splits option.splits)
    from l have n: "rows \<noteq> []" "\<not> length rows < rowsPerPage"
      by (auto simp add: rowsPerPage_def)
    from body have "rec mr d a s e (p + 1) (trs @ map toTransfer rows)
                      (reqs @ [transfersRequest d a s e p]) = Some y"
      by (simp add: r n)
    then show ?thesis by (rule IH)
  next
    case False
    then show ?thesis by blast
  qed
qed

lemma ft_never:
  "(\<forall>q. fullPage (mr (transfersRequest d a s e q))) \<Longrightarrow>
   fetchTransfers_loop mr d a s e p trs reqs = None"
proof (cases "fetchTransfers_loop mr d a s e p trs reqs")
  case None
  then show ?thesis .
next
  case (Some y)
  assume all: "\<forall>q. fullPage (mr (transfersRequest d a s e q))"
  from ft_never_aux [OF Some] all show ?thesis by blast
qed

section \<open>The reward lookup\<close>

lemma fr_receiver_reqs:
  "snd (fetchRewards_receiver mr s e rc st) = snd st @ [rewardsRequest (rcv_address rc)]"
  by (cases st) (simp add: fetchRewards_receiver_def split: response.splits option.splits)

lemma fr_batch_reqs:
  "snd (fetchRewards_batch mr s e batch st) =
     snd st @ map (\<lambda>rc. rewardsRequest (rcv_address rc)) batch"
  by (induction batch arbitrary: st) (simp_all add: fr_receiver_reqs)

lemma fr_batches_reqs:
  "snd (fetchRewards_batches mr s e addresses i st) =
     snd st @ map (\<lambda>rc. rewardsRequest (rcv_address rc)) (drop i addresses)"
proof (induction mr s e addresses i st rule: fetchRewards_batches.induct)
  case (1 mr s e addresses i st)
  show ?case
  proof (cases "i < length addresses")
    case True
    have a: "drop 5 (drop i addresses) = drop (i + 5) addresses"
      by (simp add: add.commute)
    have split: "drop i addresses = take 5 (drop i addresses) @ drop (i + 5) addresses"
      using append_take_drop_id [of 5 "drop i addresses"] unfolding a by (rule sym)
    have "snd (fetchRewards_batches mr s e addresses i st) =
          snd st @ map (\<lambda>rc. rewardsRequest (rcv_address rc)) (take 5 (drop i addresses))
                 @ map (\<lambda>rc. rewardsRequest (rcv_address rc)) (drop (i + 5) addresses)"
      using True 1 [OF True]
      by (subst fetchRewards_batches.simps) (simp add: fr_batch_reqs del: fetchRewards_batches.simps)
    also have "\<dots> = snd st @ map (\<lambda>rc. rewardsRequest (rcv_address rc))
                              (take 5 (drop i addresses) @ drop (i + 5) addresses)"
      by simp
    also have "\<dots> = snd st @ map (\<lambda>rc. rewardsRequest (rcv_address rc)) (drop i addresses)"
      using split by simp
    finally show ?thesis .
  next
    case False
    then show ?thesis
      by (subst fetchRewards_batches.simps) (simp del: fetchRewards_batches.simps)
  qed
qed

lemma fr_reqs:
  "snd (fetchRecentRewards mr now addresses hours) =
     map (\<lambda>rc. rewardsRequest (rcv_address rc)) addresses"
  by (simp add: fetchRecentRewards_def Let_def fr_batches_reqs del: fetchRewards_batches.simps)


section \<open>Top-receiver discovery\<close>

lemma ftr_cap:
  "\<not> length receivers < limit \<Longrightarrow>
   fetchTopRewardReceivers_loop mr limit p receivers reqs = (receivers, reqs)"
  by (subst fetchTopRewardReceivers_loop.simps) (simp del: fetchTopRewardReceivers_loop.simps)

lemma ftr_stop:
  "length receivers < limit \<Longrightarrow> pageRows (mr (accountsRequest p)) = [] \<Longrightarrow>
   fetchTopRewardReceivers_loop mr limit p receivers reqs = (receivers, reqs @ [accountsRequest p])"
  by (subst fetchTopRewardReceivers_loop.simps)
     (simp add: pageRows_def del: fetchTopRewardReceivers_loop.simps
        split: response.splits option.splits)

lemma ftr_cont:
  "length receivers < limit \<Longrightarrow> pageRows (mr (accountsRequest p)) \<noteq> [] \<Longrightarrow>
   fetchTopRewardReceivers_loop mr limit p receivers reqs =
     fetchTopRewardReceivers_loop mr limit (Suc p)
       (receivers @ take (limit - length receivers)
                      (map toReceiver (pageRows (mr (accountsRequest p)))))
       (reqs @ [accountsRequest p])"
  by (subst fetchTopRewardReceivers_loop.simps)
     (simp add: pageRows_def del: fetchTopRewardReceivers_loop.simps
        split: response.splits option.splits)

lemma take_take_append:
  "(xs @ take (n - length xs) a) @ take (n - length (xs @ take (n - length xs) a)) b =
   xs @ take (n - length xs) (a @ b)"
  by (simp add: min_def)

lemma ftr_pages:
  "(\<forall>i<k. pageRows (mr (accountsRequest (p + i))) \<noteq> []) \<Longrightarrow>
   (\<forall>i<k. length receivers
            + length (concat (map (\<lambda>q. pageRows (mr (accountsRequest q))) [p..<p + i])) < limit) \<Longrightarrow>
   fetchTopRewardReceivers_loop mr limit p receivers reqs =
     fetchTopRewardReceivers_loop mr limit (p + k)
       (receivers @ take (limit - length receivers)
          (concat (map (\<lambda>q. map toReceiver (pageRows (mr (accountsRequest q)))) [p..<p + k])))
       (reqs @ map accountsRequest [p..<p + k])"
proof (induction k arbitrary: p receivers reqs)
  case 0
  then show ?case by simp
next
  case (Suc k)
  let ?rows = "pageRows (mr (accountsRequest p))"
  let ?R = "receivers @ take (limit - length receivers) (map toReceiver ?rows)"
  from Suc.prems(1) [rule_format, of 0] have ok: "?rows \<noteq> []" by simp
  from Suc.prems(2) [rule_format, of 0] have below: "length receivers < limit" by simp
  have step: "fetchTopRewardReceivers_loop mr limit p receivers reqs =
              fetchTopRewardReceivers_loop mr limit (Suc p) ?R (reqs @ [accountsRequest p])"
    using below ok by (rule ftr_cont)
  have ok': "\<forall>i<k. pageRows (mr (accountsRequest (Suc p + i))) \<noteq> []"
  proof (intro allI impI)
    fix i assume "i < k"
    then have "Suc i < Suc k" by simp
    from Suc.prems(1) [rule_format, OF this]
    show "pageRows (mr (accountsRequest (Suc p + i))) \<noteq> []" by simp
  qed
  have below': "\<forall>i<k. length ?R
            + length (concat (map (\<lambda>q. pageRows (mr (accountsRequest q))) [Suc p..<Suc p + i])) < limit"
  proof (intro allI impI)
    fix i assume "i < k"
    then have "Suc i < Suc k" by simp
    from Suc.prems(2) [rule_format, OF this]
    have A: "length receivers
            + length (concat (map (\<lambda>q. pageRows (mr (accountsRequest q))) [p..<p + Suc i])) < limit" .
    have B: "[p..<p + Suc i] = p # [Suc p..<Suc p + i]"
      by (simp add: upt_conv_Cons)
    from A have "length receivers + (length ?rows
            + length (concat (map (\<lambda>q. pageRows (mr (accountsRequest q))) [Suc p..<Suc p + i]))) < limit"
      unfolding B by simp
    moreover have "length ?R \<le> length receivers + length ?rows" by simp
    ultimately show "length ?R
            + length (concat (map (\<lambda>q. pageRows (mr (accountsRequest q))) [Suc p..<Suc p + i])) < limit"
      by linarith
  qed
  have range: "[p..<p + Suc k] = p # [Suc p..<Suc p + k]"
    by (simp add: upt_conv_Cons)
  have recv: "?R @ take (limit - length ?R)
                (concat (map (\<lambda>q. map toReceiver (pageRows (mr (accountsRequest q)))) [Suc p..<Suc p + k]))
              = receivers @ take (limit - length receivers)
                (map toReceiver ?rows
                 @ concat (map (\<lambda>q. map toReceiver (pageRows (mr (accountsRequest q)))) [Suc p..<Suc p + k]))"
    using take_take_append [of receivers limit "map toReceiver ?rows"] by simp
  show ?case
    unfolding step Suc.IH [OF ok' below'] range recv by simp
qed

lemma ftr_result:
  assumes "\<forall>i<k. pageRows (mr (accountsRequest i)) \<noteq> []"
      and "\<forall>i<k. length (concat (map (\<lambda>q. pageRows (mr (accountsRequest q))) [0..<i])) < limit"
      and "limit \<le> length (concat (map (\<lambda>q. pageRows (mr (accountsRequest q))) [0..<k]))
           \<or> pageRows (mr (accountsRequest k)) = []"
  shows "fetchTopRewardReceivers mr limit =
           (take limit (concat (map (\<lambda>q. map toReceiver (pageRows (mr (accountsRequest q)))) [0..<k])),
            map accountsRequest
              (if limit \<le> length (concat (map (\<lambda>q. pageRows (mr (accountsRequest q))) [0..<k]))
               then [0..<k] else [0..<Suc k]))"
proof -
  let ?C = "concat (map (\<lambda>q. map toReceiver (pageRows (mr (accountsRequest q)))) [0..<k])"
  have len: "length ?C = length (concat (map (\<lambda>q. pageRows (mr (accountsRequest q))) [0..<k]))"
    by (simp add: length_concat comp_def)
  have run: "fetchTopRewardReceivers mr limit =
             fetchTopRewardReceivers_loop mr limit k (take limit ?C) (map accountsRequest [0..<k])"
    using ftr_pages [of k mr 0 "[]" limit "[]"] assms(1,2)
    by (simp add: fetchTopRewardReceivers_def del: fetchTopRewardReceivers_loop.simps)
  show ?thesis
  proof (cases "limit \<le> length (concat (map (\<lambda>q. pageRows (mr (accountsRequest q))) [0..<k]))")
    case True
    then have "\<not> length (take limit ?C) < limit" using len by simp
    from ftr_cap [OF this] True show ?thesis
      unfolding run by (simp del: fetchTopRewardReceivers_loop.simps)
  next
    case False
    with assms(3) have empty: "pageRows (mr (accountsRequest k)) = []" by blast
    from False have "length (take limit ?C) < limit" using len by simp
    from ftr_stop [where mr = mr and p = k, OF this empty] False show ?thesis
      unfolding run by (simp del: fetchTopRewardReceivers_loop.simps)
  qed
qed


section \<open>The pagination claim\<close>

lemma request_fields:
  "page (transfersRequest d a s e q) = q"
  "row (transfersRequest d a s e q) = 100"
  "page (rewardsRequest x) = 0"
  "row (rewardsRequest x) = 20"
  "page (accountsRequest q) = q"
  "row (accountsRequest q) = 100"
  by (simp_all add: transfersRequest_def rewardsRequest_def accountsRequest_def rowsPerPage_def)

text \<open>
  Claim C8, as the code has it. The transfer lookup (outgoing in \<open>fetchTransfersForAddress\<close>,
  incoming in \<open>fetchIncomingTransfers\<close>) requests the pages 0, 1, 2, ... with 100 rows each: when
  page \<open>n\<close> is the first that is not full (fewer than 100 rows, no rows, or a failed request), it
  returns after requesting exactly the pages 0 to \<open>n\<close>, with the rows of all of them. The reward
  lookup sends one request for each address, page 0 with 20 rows, whatever comes back.
  Top-receiver discovery requests pages of 100 rows while it holds fewer receivers than the
  cap: when the pages 0 to \<open>k - 1\<close> are not empty and the cap is not reached before any of them is
  requested, it stops without requesting page \<open>k\<close> if the cap is reached then, and after
  requesting page \<open>k\<close> if that page is empty or fails; a page shorter than 100 rows does not stop
  it.
\<close>

theorem pagination_policy:
  assumes "\<forall>i<n. fullPage (mrT (transfersRequest dir a s e i))"
      and "\<not> fullPage (mrT (transfersRequest dir a s e n))"
      and "\<forall>i<k. pageRows (mrA (accountsRequest i)) \<noteq> []"
      and "\<forall>i<k. length (concat (map (\<lambda>q. pageRows (mrA (accountsRequest q))) [0..<i])) < limit"
      and "limit \<le> length (concat (map (\<lambda>q. pageRows (mrA (accountsRequest q))) [0..<k]))
           \<or> pageRows (mrA (accountsRequest k)) = []"
  shows "fetchTransfers_loop mrT dir a s e 0 [] [] =
           Some (concat (map (\<lambda>q. map toTransfer (pageRows (mrT (transfersRequest dir a s e q))))
                           [0..<Suc n]),
                 map (transfersRequest dir a s e) [0..<Suc n])
         \<and> fetchTransfersForAddress mrT a s e = fetchTransfers_loop mrT ''from'' a s e 0 [] []
         \<and> fetchIncomingTransfers mrT a s e = fetchTransfers_loop mrT ''to'' a s e 0 [] []
         \<and> page (transfersRequest dir a s e q) = q \<and> row (transfersRequest dir a s e q) = 100
         \<and> snd (fetchRecentRewards mrR now addresses hours) =
             map (\<lambda>rc. rewardsRequest (rcv_address rc)) addresses
         \<and> page (rewardsRequest x) = 0 \<and> row (rewardsRequest x) = 20
         \<and> fetchTopRewardReceivers mrA limit =
             (take limit
                (concat (map (\<lambda>q. map toReceiver (pageRows (mrA (accountsRequest q)))) [0..<k])),
              map accountsRequest
                (if limit \<le> length (concat (map (\<lambda>q. pageRows (mrA (accountsRequest q))) [0..<k]))
                 then [0..<k] else [0..<Suc k]))"
proof -
  have t: "fetchTransfers_loop mrT dir a s e 0 [] [] =
           Some (concat (map (\<lambda>q. map toTransfer (pageRows (mrT (transfersRequest dir a s e q))))
                           [0..<Suc n]),
                 map (transfersRequest dir a s e) [0..<Suc n])"
    using ft_pages [of n mrT dir a s e 0 "[]" "[]"] assms(1,2) by simp
  have r: "snd (fetchRecentRewards mrR now addresses hours) =
             map (\<lambda>rc. rewardsRequest (rcv_address rc)) addresses"
    by (rule fr_reqs)
  note top = ftr_result [OF assms(3,4,5)]
  show ?thesis
    by (simp only: t r top request_fields fetchTransfersForAddress_def
        fetchIncomingTransfers_def simp_thms)
qed

lemma example_pages:
  "fullPage (twoPageServer (transfersRequest ''from'' ''A'' 0 10 0))"
  "\<not> fullPage (twoPageServer (transfersRequest ''from'' ''A'' 0 10 (Suc 0)))"
  "pageRows (twoPageServer (transfersRequest ''from'' ''A'' 0 10 0)) = replicate 100 sampleRawTransfer"
  "pageRows (twoPageServer (transfersRequest ''from'' ''A'' 0 10 (Suc 0))) = replicate 3 sampleRawTransfer"
  "pageRows (shortAccountServer (accountsRequest 0)) = [sampleAccount, sampleAccount]"
  "pageRows (shortAccountServer (accountsRequest (Suc 0))) = []"
  "pageRows (fullRewardServer (rewardsRequest ''A'')) = replicate 20 sampleRawReward"
  by (simp_all add: fullPage_def pageRows_def twoPageServer_def shortAccountServer_def
      fullRewardServer_def request_fields rowsPerPage_def)

theorem pagination_policy_witness:
  "fullPage (twoPageServer (transfersRequest ''from'' ''A'' 0 10 0))
   \<and> \<not> fullPage (twoPageServer (transfersRequest ''from'' ''A'' 0 10 (Suc 0)))
   \<and> pageRows (shortAccountServer (accountsRequest 0)) \<noteq> []
   \<and> length (pageRows (shortAccountServer (accountsRequest 0))) < 100
   \<and> pageRows (shortAccountServer (accountsRequest (Suc 0))) = []
   \<and> fetchTransfersForAddress twoPageServer ''A'' 0 10 =
       Some (replicate 100 (toTransfer sampleRawTransfer) @ replicate 3 (toTransfer sampleRawTransfer),
             [transfersRequest ''from'' ''A'' 0 10 0, transfersRequest ''from'' ''A'' 0 10 (Suc 0)])
   \<and> snd (fetchRecentRewards fullRewardServer 100 [receiverA] 24) =
       [rewardsRequest (rcv_address receiverA)]
   \<and> fetchTopRewardReceivers shortAccountServer 1000 =
       ([toReceiver sampleAccount, toReceiver sampleAccount],
        [accountsRequest 0, accountsRequest (Suc 0)])"
proof -
  have h1: "\<forall>i<Suc 0. fullPage (twoPageServer (transfersRequest ''from'' ''A'' 0 10 i))"
    by (simp add: example_pages)
  have h2: "\<not> fullPage (twoPageServer (transfersRequest ''from'' ''A'' 0 10 (Suc 0)))"
    by (simp add: example_pages)
  have h3: "\<forall>i<Suc 0. pageRows (shortAccountServer (accountsRequest i)) \<noteq> []"
    by (simp add: example_pages)
  have h4: "\<forall>i<Suc 0. length (concat (map (\<lambda>q. pageRows (shortAccountServer (accountsRequest q)))
              [0..<i])) < 1000"
    by simp
  have h5: "1000 \<le> length (concat (map (\<lambda>q. pageRows (shortAccountServer (accountsRequest q)))
              [0..<Suc 0]))
            \<or> pageRows (shortAccountServer (accountsRequest (Suc 0))) = []"
    by (simp add: example_pages)
  from pagination_policy [OF h1 h2 h3 h4 h5, where mrR = fullRewardServer and now = 100
      and addresses = "[receiverA]" and hours = 24]
  show ?thesis
    by (simp add: example_pages)
qed

text \<open>
  Claim C8, as stated, fails for the reward lookup: a page of 20 rewards, as many as the
  request asks for, is followed by no request for a further page. The only request sent for
  the address is the one for page 0.
\<close>

theorem reward_lookup_counterexample:
  "length (pageRows (fullRewardServer (rewardsRequest (rcv_address receiverA)))) =
     row (rewardsRequest (rcv_address receiverA))
   \<and> snd (fetchRecentRewards fullRewardServer 100 [receiverA] 24) =
       [rewardsRequest (rcv_address receiverA)]
   \<and> page (rewardsRequest (rcv_address receiverA)) = 0"
  by (simp add: fr_reqs request_fields pageRows_def fullRewardServer_def)

end
